theory Spec2Isabelle
  imports Complex_Main "HOL-Library.Signed_Division" "HOL-Library.Log_Nat"
begin

section \<open>The calendar of the JavaScript \<open>Date\<close> object\<close>

text \<open>
  The loan engine of KrediApp (the loans page \<open>components/Loans.tsx\<close>, the reports page
  and the shared components it imports from \<open>./Shared\<close>) does all its date work through
  \<open>Date\<close>. A \<open>Date\<close> holds a
  time value, the milliseconds since 1970-01-01T00:00:00Z, or \<open>NaN\<close> (an Invalid Date).
  The functions below follow the ECMAScript definitions (Day, TimeWithinDay, DaysInYear,
  DayFromYear, YearFromTime, MonthFromTime, DateFromTime, MakeDay, MakeDate, TimeClip) on
  integers. Time values are integers far below \<open>2^53\<close>, so the doubles of the program
  carry them exactly.

  Local time is that of the host the page runs on. Every function that reads or writes
  the local fields of a \<open>Date\<close> takes the host's offset from UTC as its first argument
  \<open>tza\<close>, in milliseconds: local time is UTC plus \<open>tza\<close>. For America/Sao_Paulo, three
  hours behind UTC, \<open>tza\<close> is \<open>-10800000\<close>. The offset is the same for every date: a host
  whose offset changes in the course of the year (daylight saving time) is not
  modelled.
\<close>

definition msPerDay :: int where
  "msPerDay = 86400000"

definition LocalTime :: "int \<Rightarrow> int \<Rightarrow> int" where
  "LocalTime tza t = t + tza"

definition UTC :: "int \<Rightarrow> int \<Rightarrow> int" where
  "UTC tza t = t - tza"

definition Day :: "int \<Rightarrow> int" where
  "Day t = t div msPerDay"

definition TimeWithinDay :: "int \<Rightarrow> int" where
  "TimeWithinDay t = t mod msPerDay"

definition DaysInYear :: "int \<Rightarrow> int" where
  "DaysInYear y =
     (if y mod 4 \<noteq> 0 then 365
      else if y mod 100 \<noteq> 0 then 366
      else if y mod 400 \<noteq> 0 then 365
      else 366)"

definition DayFromYear :: "int \<Rightarrow> int" where
  "DayFromYear y =
     365 * (y - 1970) + (y - 1969) div 4 - (y - 1901) div 100 + (y - 1601) div 400"

text \<open>
  YearFromTime is "the largest integer \<open>y\<close> such that \<open>DayFromYear y \<le> Day t\<close>". It is
  computed by stepping down from a year that is certainly not too small.
\<close>

function yearAtOrBefore :: "int \<Rightarrow> int \<Rightarrow> int" where
  "yearAtOrBefore d y = (if DayFromYear y \<le> d then y else yearAtOrBefore d (y - 1))"
  by pat_completeness auto
termination
proof (relation "measure (\<lambda>(d, y). nat (DayFromYear y - d))")
  show "wf (measure (\<lambda>(d, y). nat (DayFromYear y - d)))"
    by simp
next
  fix d y :: int
  assume above: "\<not> DayFromYear y \<le> d"
  have "(y - 1970) div 4 \<le> (y - 1969) div 4"
    and "(y - 1902) div 100 \<le> (y - 1901) div 100"
    and "(y - 1901) div 100 \<le> (y - 1902) div 100 + 1"
    and "(y - 1602) div 400 \<le> (y - 1601) div 400"
    by (simp_all add: zdiv_mono1)
  then have "DayFromYear (y - 1) < DayFromYear y"
    by (simp add: DayFromYear_def)
  with above show "((d, y - 1), (d, y)) \<in> measure (\<lambda>(d, y). nat (DayFromYear y - d))"
    by simp
qed

definition YearFromDay :: "int \<Rightarrow> int" where
  "YearFromDay d =
     yearAtOrBefore d (if 0 \<le> d then 1971 + d div 365 else 1971 + d div 366)"

definition YearFromTime :: "int \<Rightarrow> int" where
  "YearFromTime t = YearFromDay (Day t)"

definition InLeapYear :: "int \<Rightarrow> int" where
  "InLeapYear t = (if DaysInYear (YearFromTime t) = 366 then 1 else 0)"

definition DayWithinYear :: "int \<Rightarrow> int" where
  "DayWithinYear t = Day t - DayFromYear (YearFromTime t)"

definition MonthFromTime :: "int \<Rightarrow> int" where
  "MonthFromTime t =
     (let d = DayWithinYear t; l = InLeapYear t
      in if d < 31 then 0
         else if d < 59 + l then 1
         else if d < 90 + l then 2
         else if d < 120 + l then 3
         else if d < 151 + l then 4
         else if d < 181 + l then 5
         else if d < 212 + l then 6
         else if d < 243 + l then 7
         else if d < 273 + l then 8
         else if d < 304 + l then 9
         else if d < 334 + l then 10
         else 11)"

definition DateFromTime :: "int \<Rightarrow> int" where
  "DateFromTime t =
     (let d = DayWithinYear t; l = InLeapYear t; m = MonthFromTime t
      in if m = 0 then d + 1
         else if m = 1 then d - 30
         else if m = 2 then d - 58 - l
         else if m = 3 then d - 89 - l
         else if m = 4 then d - 119 - l
         else if m = 5 then d - 150 - l
         else if m = 6 then d - 180 - l
         else if m = 7 then d - 211 - l
         else if m = 8 then d - 242 - l
         else if m = 9 then d - 272 - l
         else if m = 10 then d - 303 - l
         else d - 333 - l)"

text \<open>
  MakeDay finds the day on which month \<open>mn\<close> of year \<open>ym\<close> begins and adds \<open>date - 1\<close>:
  a date beyond the month's end runs on into the following months, a date of \<open>0\<close> is the
  last day of the month before.
\<close>

definition firstDayOfMonth :: "int \<Rightarrow> int \<Rightarrow> int" where
  "firstDayOfMonth ym mn =
     (let l = (if DaysInYear ym = 366 then 1 else 0)
      in DayFromYear ym +
         (if mn = 0 then 0
          else if mn = 1 then 31
          else if mn = 2 then 59 + l
          else if mn = 3 then 90 + l
          else if mn = 4 then 120 + l
          else if mn = 5 then 151 + l
          else if mn = 6 then 181 + l
          else if mn = 7 then 212 + l
          else if mn = 8 then 243 + l
          else if mn = 9 then 273 + l
          else if mn = 10 then 304 + l
          else 334 + l))"

definition MakeDay :: "int \<Rightarrow> int \<Rightarrow> int \<Rightarrow> int" where
  "MakeDay year month date =
     (let ym = year + month div 12; mn = month mod 12
      in firstDayOfMonth ym mn + date - 1)"

definition MakeDate :: "int \<Rightarrow> int \<Rightarrow> int" where
  "MakeDate day time = day * msPerDay + time"

type_synonym jsdate = "int option"

definition TimeClip :: "int \<Rightarrow> jsdate" where
  "TimeClip t = (if 8640000000000000 < \<bar>t\<bar> then None else Some t)"


subsection \<open>Methods of \<open>Date\<close>\<close>

text \<open>
  A \<open>Date\<close> is its time value; \<open>None\<close> is the Invalid Date, whose time value is
  \<open>NaN\<close>. Every method below returns \<open>NaN\<close> (or leaves the date invalid) on an Invalid
  Date, and \<open>toISOString\<close> throws a \<open>RangeError\<close>. Reading a property of \<open>undefined\<close>
  throws a \<open>TypeError\<close>.
\<close>

datatype js_error = RangeError | TypeError

definition getMonth :: "int \<Rightarrow> jsdate \<Rightarrow> int option" where
  "getMonth tza d = (case d of None \<Rightarrow> None | Some tv \<Rightarrow> Some (MonthFromTime (LocalTime tza tv)))"

definition setMonth :: "int \<Rightarrow> jsdate \<Rightarrow> int \<Rightarrow> jsdate" where
  "setMonth tza d month =
     (case d of
        None \<Rightarrow> None
      | Some tv \<Rightarrow>
          (let t = LocalTime tza tv;
               newDate = MakeDate (MakeDay (YearFromTime t) month (DateFromTime t)) (TimeWithinDay t)
           in TimeClip (UTC tza newDate)))"

definition setDate :: "int \<Rightarrow> jsdate \<Rightarrow> int \<Rightarrow> jsdate" where
  "setDate tza d date =
     (case d of
        None \<Rightarrow> None
      | Some tv \<Rightarrow>
          (let t = LocalTime tza tv;
               newDate = MakeDate (MakeDay (YearFromTime t) (MonthFromTime t) date) (TimeWithinDay t)
           in TimeClip (UTC tza newDate)))"

text \<open>\<open>today.setHours(0,0,0,0)\<close>: the same local day, at 00:00:00.000.\<close>

definition setHours0 :: "int \<Rightarrow> jsdate \<Rightarrow> jsdate" where
  "setHours0 tza d =
     (case d of
        None \<Rightarrow> None
      | Some tv \<Rightarrow> TimeClip (UTC tza (MakeDate (Day (LocalTime tza tv)) 0)))"

text \<open>
  \<open>new Date(year, month, day)\<close>: local midnight of the given civil date; a year from 0
  to 99 means 1900 + year.
\<close>

definition newDateYMD :: "int \<Rightarrow> int \<Rightarrow> int \<Rightarrow> int \<Rightarrow> jsdate" where
  "newDateYMD tza year month day =
     (let yr = (if 0 \<le> year \<and> year \<le> 99 then 1900 + year else year)
      in TimeClip (UTC tza (MakeDate (MakeDay yr month day) 0)))"

subsection \<open>Date strings\<close>

definition digitChar :: "int \<Rightarrow> char" where
  "digitChar d = char_of (48 + d)"

definition isDigit :: "char \<Rightarrow> bool" where
  "isDigit c = (48 \<le> (of_char c :: int) \<and> (of_char c :: int) \<le> 57)"

definition digitOf :: "char \<Rightarrow> int" where
  "digitOf c = of_char c - 48"

definition pad2 :: "int \<Rightarrow> string" where
  "pad2 v = [digitChar (v div 10 mod 10), digitChar (v mod 10)]"

definition pad3 :: "int \<Rightarrow> string" where
  "pad3 v = digitChar (v div 100 mod 10) # pad2 v"

definition pad4 :: "int \<Rightarrow> string" where
  "pad4 v = digitChar (v div 1000 mod 10) # pad3 v"

definition pad6 :: "int \<Rightarrow> string" where
  "pad6 v = digitChar (v div 100000 mod 10) # digitChar (v div 10000 mod 10) # pad4 v"

text \<open>
  \<open>toISOString\<close> prints the UTC fields as \<open>YYYY-MM-DDTHH:mm:ss.sssZ\<close>; a year outside
  0 .. 9999 is printed with a sign and six digits.
\<close>

definition toISOString :: "jsdate \<Rightarrow> js_error + string" where
  "toISOString d =
     (case d of
        None \<Rightarrow> Inl RangeError
      | Some tv \<Rightarrow>
          (let y = YearFromTime tv;
               yearString =
                 (if 0 \<le> y \<and> y \<le> 9999 then pad4 y
                  else (if y < 0 then ''-'' else ''+'') @ pad6 \<bar>y\<bar>)
           in Inr (yearString @ ''-'' @ pad2 (MonthFromTime tv + 1) @ ''-'' @ pad2 (DateFromTime tv)
                   @ ''T'' @ pad2 (tv div 3600000 mod 24) @ '':'' @ pad2 (tv div 60000 mod 60)
                   @ '':'' @ pad2 (tv div 1000 mod 60) @ ''.'' @ pad3 (tv mod 1000) @ ''Z'')))"

text \<open>
  The program reads every stored date with
  \<open>new Date(s.split('T')[0] + 'T00:00:00')\<close>. \<open>splitT0\<close> is \<open>s.split('T')[0]\<close>, the
  text before the first \<open>T\<close>. \<open>newDateMidnight p\<close> is \<open>new Date(p + 'T00:00:00')\<close> for a
  \<open>p\<close> without \<open>T\<close>: a date-time without offset is local time, and \<open>p\<close> has to be a date
  of the ECMAScript format: \<open>YYYY\<close>, \<open>YYYY-MM\<close> or \<open>YYYY-MM-DD\<close>, the year with four
  digits, or with a sign and six digits (\<open>-000000\<close> excepted). What engines make of
  any other text is not specified; the model has it an Invalid Date.
\<close>

definition splitT0 :: "string \<Rightarrow> string" where
  "splitT0 s = takeWhile (\<lambda>c. c \<noteq> CHR ''T'') s"

definition parseDigits :: "string \<Rightarrow> int option" where
  "parseDigits s =
     (if s \<noteq> [] \<and> list_all isDigit s
      then Some (foldl (\<lambda>a c. 10 * a + digitOf c) 0 s)
      else None)"

definition DaysInMonth :: "int \<Rightarrow> int \<Rightarrow> int" where
  "DaysInMonth y m =
     (if m = 1 then (if DaysInYear y = 366 then 29 else 28)
      else if m = 3 \<or> m = 5 \<or> m = 8 \<or> m = 10 then 30
      else 31)"

definition parseYear :: "string \<Rightarrow> (int \<times> string) option" where
  "parseYear p =
     (case p of
        [] \<Rightarrow> None
      | c # r \<Rightarrow>
          if c = CHR ''+'' \<or> c = CHR ''-'' then
            (case parseDigits (take 6 r) of
               None \<Rightarrow> None
             | Some v \<Rightarrow>
                 if length r < 6 \<or> (c = CHR ''-'' \<and> v = 0) then None
                 else Some (if c = CHR ''-'' then - v else v, drop 6 r))
          else
            (case parseDigits (take 4 p) of
               None \<Rightarrow> None
             | Some v \<Rightarrow> if length p < 4 then None else Some (v, drop 4 p)))"

definition parseDashed2 :: "string \<Rightarrow> (int \<times> string) option" where
  "parseDashed2 p =
     (case p of
        c # r \<Rightarrow>
          if c = CHR ''-'' \<and> 2 \<le> length r then
            (case parseDigits (take 2 r) of None \<Rightarrow> None | Some v \<Rightarrow> Some (v, drop 2 r))
          else None
      | [] \<Rightarrow> None)"

definition parseDate :: "string \<Rightarrow> (int \<times> int \<times> int) option" where
  "parseDate p =
     (case parseYear p of
        None \<Rightarrow> None
      | Some (y, r1) \<Rightarrow>
          if r1 = [] then Some (y, 1, 1)
          else
            (case parseDashed2 r1 of
               None \<Rightarrow> None
             | Some (m, r2) \<Rightarrow>
                 if m < 1 \<or> 12 < m then None
                 else if r2 = [] then Some (y, m, 1)
                 else
                   (case parseDashed2 r2 of
                      None \<Rightarrow> None
                    | Some (d, r3) \<Rightarrow>
                        if r3 \<noteq> [] \<or> d < 1 \<or> DaysInMonth y (m - 1) < d then None
                        else Some (y, m, d))))"

definition newDateMidnight :: "int \<Rightarrow> string \<Rightarrow> jsdate" where
  "newDateMidnight tza p =
     (case parseDate p of
        None \<Rightarrow> None
      | Some (y, m, d) \<Rightarrow> TimeClip (UTC tza (MakeDate (MakeDay y (m - 1) d) 0)))"


text \<open>
  \<open>`${n}`\<close> for an integer \<open>n\<close>: its decimal digits, with a minus sign when negative.
\<close>

fun decimalNat :: "nat \<Rightarrow> string" where
  "decimalNat n =
     (if n < 10 then [digitChar (int n)]
      else decimalNat (n div 10) @ [digitChar (int (n mod 10))])"

definition numberToString :: "int \<Rightarrow> string" where
  "numberToString n = (if n < 0 then ''-'' @ decimalNat (nat (- n)) else decimalNat (nat n))"

section \<open>Double arithmetic\<close>

text \<open>
  A JavaScript number is an IEEE 754 binary64 value. A finite one is a rational: an
  integer of at most 53 bits times a power of two. \<open>double x\<close> is the double nearest to
  the rational \<open>x\<close>, the one with the even significand when two are equally near
  (round to nearest, ties to even): the value of a decimal literal, of \<open>parseFloat\<close> and
  of every arithmetic operation, which rounds the exact result. \<open>binaryExponent x\<close> is
  the integer \<open>e\<close> with \<open>2^e \<le> |x| < 2^(e+1)\<close>; the doubles from \<open>2^e\<close> to \<open>2^(e+1)\<close> are
  the multiples of \<open>2^(e-52)\<close>, and below \<open>2^(-1022)\<close> they are the multiples of
  \<open>2^(-1074)\<close>. Numbers of magnitude \<open>2^1024\<close> and more, which round to \<open>Infinity\<close>, are
  outside the model.
\<close>

definition roundHalfEven :: "rat \<Rightarrow> int" where
  "roundHalfEven x =
     (let n = \<lfloor>x\<rfloor>; r = x - of_int n
      in if r < 1 / 2 then n
         else if 1 / 2 < r then n + 1
         else if even n then n else n + 1)"

definition binaryExponent :: "rat \<Rightarrow> int" where
  "binaryExponent x =
     (let a = \<bar>x\<bar>
      in if 1 \<le> a then bitlen \<lfloor>a\<rfloor> - 1
         else (let k = bitlen \<lfloor>1 / a\<rfloor> - 1
               in if a * 2 ^ nat k = 1 then - k else - k - 1))"

definition double :: "rat \<Rightarrow> rat" where
  "double x =
     (if x = 0 then 0
      else (let ulp = 2 powi (max (binaryExponent x) (- 1022) - 52)
            in of_int (roundHalfEven (x / ulp)) * ulp))"

text \<open>
  The operations of the program on doubles \<open>x\<close> and \<open>y\<close>: \<open>x + y\<close>, \<open>x - y\<close>, \<open>x * y\<close>,
  \<open>x / y\<close> (for \<open>y\<close> other than 0) and \<open>Math.floor(x)\<close>, which is exact.
\<close>

definition dadd :: "rat \<Rightarrow> rat \<Rightarrow> rat" where
  "dadd x y = double (x + y)"

definition dsub :: "rat \<Rightarrow> rat \<Rightarrow> rat" where
  "dsub x y = double (x - y)"

definition dmul :: "rat \<Rightarrow> rat \<Rightarrow> rat" where
  "dmul x y = double (x * y)"

definition ddiv :: "rat \<Rightarrow> rat \<Rightarrow> rat" where
  "ddiv x y = double (x / y)"

definition Math_floor :: "rat \<Rightarrow> rat" where
  "Math_floor x = of_int \<lfloor>x\<rfloor>"

text \<open>
  \<open>x.toFixed(2)\<close> prints \<open>n / 100\<close> with two decimals for the integer \<open>n\<close> that brings
  \<open>n / 100\<close> nearest to the exact value of \<open>x\<close>, the larger \<open>n\<close> when two are equally
  near; a negative \<open>x\<close> is printed as \<open>-\<close> and the text for \<open>-x\<close>, and a number of
  magnitude \<open>10^21\<close> or more in the notation of \<open>String(x)\<close>, which reads back as \<open>x\<close>.
  \<open>toFixed2 x\<close> is the number that the text denotes and \<open>parseFloat\<close> the double
  nearest to it.
\<close>

definition toFixed2 :: "rat \<Rightarrow> rat" where
  "toFixed2 x =
     (if 10 ^ 21 \<le> \<bar>x\<bar> then x
      else (let n = \<lfloor>\<bar>x\<bar> * 100 + 1 / 2\<rfloor>
            in (if x < 0 then - 1 else 1) * of_int n / 100))"

definition parseFloat :: "rat \<Rightarrow> rat" where
  "parseFloat v = double v"


section \<open>The data model (\<open>types.ts\<close>)\<close>

text \<open>
  An optional field (\<open>name?: T\<close>) is an \<open>option\<close>, \<open>None\<close> for \<open>undefined\<close>. Amounts of
  money are JavaScript numbers; the theory has them as the rationals they are. The
  schedule generator computes its amounts in double arithmetic, as the section before
  has it. The outstanding balance uses only sums of amounts, their products with a
  number of days and their order, and is taken without the rounding (which keeps the
  order of sums and products). \<open>id\<close> and \<open>date\<close> of a
  loan are \<open>loan_id\<close> and \<open>loan_date\<close> here; the fields of an installment that share a
  name with a field of the loan carry the prefix \<open>inst_\<close>, those of a form \<open>f_\<close>.
\<close>

datatype LoanStatus = pending | paid | overdue

datatype LoanModality =
    PagamentoUnico  \<comment> \<open>'Pagamento Unico (Principal + Juros)'\<close>
  | JurosMensal     \<comment> \<open>'Juros Mensal (+ Principal no final)'\<close>
  | Parcelado       \<comment> \<open>'Parcelado (Principal + Juros em X vezes)'\<close>

datatype InstallmentStatus = inst_pending | inst_paid

record InstallmentDetail =
  installment_number :: int
  amount :: rat
  inst_due_date :: string
  inst_status :: InstallmentStatus
  inst_payment_date :: "string option"
  inst_amount_paid :: "rat option"

record PromiseEntry =
  promise_date :: string
  promise_note :: string
  promised_due_date :: "string option"

record DueDateChange =
  old_due_date :: string
  new_due_date :: string
  change_date :: string

record InterestPayment =
  ip_date :: string
  ip_amount_paid :: rat

record Loan =
  loan_id :: string
  clientId :: string
  clientName :: "string option"
  account_id :: string
  amount_borrowed :: rat
  amount_to_receive :: rat
  interest_rate :: rat
  daily_late_fee_amount :: rat
  loan_date :: string
  due_date :: string
  payment_date :: "string option"
  status :: LoanStatus
  is_ghost :: "bool option"
  is_in_negotiation :: "bool option"
  modality :: LoanModality
  installments :: "int option"
  installments_details :: "InstallmentDetail list option"
  promise_history :: "PromiseEntry list option"
  due_date_history :: "DueDateChange list option"
  interest_payments_history :: "InterestPayment list option"
  observation :: "string option"
  is_archived :: "bool option"

record Client =
  client_id :: string
  client_name :: string

datatype TransactionType = credit | debit

record Transaction =
  txn_id :: string
  txn_accountId :: string
  txn_description :: string
  txn_amount :: rat
  txn_type :: TransactionType
  txn_date :: string

section \<open>Calendar utilities (the shared components)\<close>

text \<open>
  \<open>getTodayInBrasilia\<close> formats the clock's reading as a civil date in Brasilia
  (\<open>dd/mm/yyyy\<close>), splits it into numbers and builds the midnight of that date in the
  local time of the host.
  Its argument here, after the host's offset, is that triple of numbers, the one thing
  it takes from the clock. The functions that call \<open>getTodayInBrasilia()\<close> take the time
  value of its result as their argument \<open>today\<close>.
\<close>

definition getTodayInBrasilia :: "int \<Rightarrow> int \<times> int \<times> int \<Rightarrow> jsdate" where
  "getTodayInBrasilia tza dmy =
     (case dmy of (day, month, year) \<Rightarrow> setHours0 tza (newDateYMD tza year (month - 1) day))"

datatype jsnumber = Number int | NaN

definition calculateDaysOverdue :: "int \<Rightarrow> int \<Rightarrow> string \<Rightarrow> jsnumber" where
  "calculateDaysOverdue tza today isoDueDateString =
     (if isoDueDateString = [] then Number 0
      else
        (case newDateMidnight tza (splitT0 isoDueDateString) of
           None \<Rightarrow> NaN
         | Some dueDate \<Rightarrow>
             if dueDate \<ge> today then Number 0
             else
               (let diffTime = today - dueDate;
                    diffDays = diffTime div (1000 * 60 * 60 * 24)
                in Number (max 0 diffDays))))"

section \<open>Outstanding balance (the reports page)\<close>

text \<open>
  \<open>x || 0\<close> on a number: \<open>0\<close> when \<open>x\<close> is \<open>0\<close>, else \<open>x\<close>. \<open>lateFeeOf\<close> is the late fee that
  \<open>calculateCurrentOutstandingBalance\<close> computes, in the same words, once for an
  installment's due date and once for the loan's.
\<close>

definition orZero :: "rat \<Rightarrow> rat" where
  "orZero x = (if x = 0 then 0 else x)"

definition lateFeeOf :: "int \<Rightarrow> int \<Rightarrow> Loan \<Rightarrow> string \<Rightarrow> rat" where
  "lateFeeOf tza today loan dueDateString =
     (case newDateMidnight tza (splitT0 dueDateString) of
        None \<Rightarrow> 0
      | Some dueDate \<Rightarrow>
          if dueDate < today then
            (let daysOverdue = (today - dueDate) div (1000 * 60 * 60 * 24)
             in of_int daysOverdue * orZero (daily_late_fee_amount loan))
          else 0)"

definition calculateCurrentOutstandingBalance :: "int \<Rightarrow> int \<Rightarrow> Loan \<Rightarrow> rat" where
  "calculateCurrentOutstandingBalance tza today loan =
     (if status loan = paid \<or> is_archived loan = Some True then 0
      else
        (case (if modality loan = Parcelado then installments_details loan else None) of
           Some details \<Rightarrow>
             foldl (\<lambda>total installment.
                      if inst_status installment = inst_paid then total
                      else total + amount installment
                             + lateFeeOf tza today loan (inst_due_date installment))
                   0 details
         | None \<Rightarrow>
             (let lateFee = lateFeeOf tza today loan (due_date loan)
              in if modality loan = JurosMensal
                 then amount_borrowed loan + amount_to_receive loan + lateFee
                 else amount_to_receive loan + lateFee)))"

section \<open>Loan status (\<open>components/Loans.tsx\<close>)\<close>

record DynamicStatus =
  effectiveStatus :: LoanStatus
  isOverdue :: bool
  isUrgent :: bool

text \<open>\<open>Math.ceil(a / b)\<close> for integers \<open>a\<close> and \<open>b > 0\<close>.\<close>

definition ceilDiv :: "int \<Rightarrow> int \<Rightarrow> int" where
  "ceilDiv a b = - ((- a) div b)"

definition installmentOverdue :: "int \<Rightarrow> int \<Rightarrow> InstallmentDetail \<Rightarrow> bool" where
  "installmentOverdue tza today i =
     (inst_status i = inst_pending \<and>
      (case newDateMidnight tza (splitT0 (inst_due_date i)) of
         None \<Rightarrow> False
       | Some d \<Rightarrow> d < today))"

definition getDynamicStatus :: "int \<Rightarrow> int \<Rightarrow> Loan \<Rightarrow> DynamicStatus" where
  "getDynamicStatus tza today loan =
     (if status loan = paid
      then \<lparr>effectiveStatus = paid, isOverdue = False, isUrgent = False\<rparr>
      else if modality loan = Parcelado \<and>
              (case installments_details loan of
                 None \<Rightarrow> False
               | Some details \<Rightarrow> list_ex (installmentOverdue tza today) details)
      then \<lparr>effectiveStatus = overdue, isOverdue = True, isUrgent = False\<rparr>
      else
        (let over =
               (case newDateMidnight tza (splitT0 (due_date loan)) of
                  None \<Rightarrow> False
                | Some dueDate \<Rightarrow> ceilDiv (dueDate - today) (1000 * 3600 * 24) < 0)
         in \<lparr>effectiveStatus = (if over then overdue else pending),
             isOverdue = over, isUrgent = False\<rparr>))"

text \<open>
  \<open>loansWithStatus\<close> (in \<open>LoansPage\<close>) attaches to every loan the status the page shows
  and filters by.
\<close>

definition isFullyPaid :: "Loan \<Rightarrow> bool" where
  "isFullyPaid loan =
     (if modality loan = Parcelado
      then (case installments_details loan of
              None \<Rightarrow> False
            | Some details \<Rightarrow> list_all (\<lambda>i. inst_status i = inst_paid) details)
      else status loan = paid)"

definition loanWithStatus :: "int \<Rightarrow> int \<Rightarrow> Loan \<Rightarrow> LoanStatus" where
  "loanWithStatus tza today loan =
     (let dynamic = getDynamicStatus tza today loan
      in if isFullyPaid loan then paid else effectiveStatus dynamic)"

definition loansWithStatus :: "int \<Rightarrow> int \<Rightarrow> Loan list \<Rightarrow> (Loan \<times> LoanStatus) list" where
  "loansWithStatus tza today loans = map (\<lambda>loan. (loan, loanWithStatus tza today loan)) loans"


section \<open>The loan mutation engine (\<open>LoansPage\<close> in \<open>components/Loans.tsx\<close>)\<close>

text \<open>
  The page keeps its loans and transactions in React state; a handler is a function from
  the state to the next state. Of the state, the model has the loans, the transactions
  and the loan being edited; toasts and the flags that open and close dialogs are left
  out. An exception thrown inside a handler leaves the state as it was and is the
  result \<open>Inl\<close>.
\<close>

record AppState =
  loans :: "Loan list"
  transactions :: "Transaction list"
  editingLoan :: "Loan option"

datatype PaymentType = interest_only | full

fun mapE :: "('a \<Rightarrow> 'e + 'b) \<Rightarrow> 'a list \<Rightarrow> 'e + 'b list" where
  "mapE f [] = Inr []"
| "mapE f (x # xs) =
     (case f x of
        Inl e \<Rightarrow> Inl e
      | Inr y \<Rightarrow> (case mapE f xs of Inl e \<Rightarrow> Inl e | Inr ys \<Rightarrow> Inr (y # ys)))"

definition orEmpty :: "'a list option \<Rightarrow> 'a list" where
  "orEmpty h = (case h of None \<Rightarrow> [] | Some xs \<Rightarrow> xs)"

text \<open>The loan that \<open>handleReceivePayment\<close> puts in the place of the loan \<open>l\<close> paid on.\<close>

definition receivePaymentOn ::
  "int \<Rightarrow> int \<Rightarrow> Loan \<Rightarrow> string \<Rightarrow> rat \<Rightarrow> int option \<Rightarrow> PaymentType option \<Rightarrow> js_error + Loan" where
  "receivePaymentOn tza today l paymentDate amountPaid installmentNumber paymentType =
     (if modality l = JurosMensal \<and> paymentType = Some interest_only then
        (let newPaymentRecord = \<lparr>ip_date = paymentDate, ip_amount_paid = amountPaid\<rparr>;
             history = orEmpty (interest_payments_history l) @ [newPaymentRecord];
             currentDueDate = newDateMidnight tza (splitT0 (due_date l));
             currentDueDate = (case getMonth tza currentDueDate of
                                 None \<Rightarrow> None
                               | Some m \<Rightarrow> setMonth tza currentDueDate (m + 1))
         in case toISOString currentDueDate of
              Inl e \<Rightarrow> Inl e
            | Inr newDueDate \<Rightarrow>
                (let tempStatus = getDynamicStatus tza today (l\<lparr>due_date := newDueDate\<rparr>)
                 in Inr (l\<lparr>interest_payments_history := Some history,
                           due_date := newDueDate,
                           status := effectiveStatus tempStatus\<rparr>)))
      else if modality l = Parcelado \<and> installmentNumber \<noteq> None \<and> installmentNumber \<noteq> Some 0 then
        (let details =
               map_option
                 (map (\<lambda>i. if Some (installment_number i) = installmentNumber
                            then i\<lparr>inst_status := inst_paid,
                                   inst_payment_date := Some paymentDate,
                                   inst_amount_paid := Some amountPaid\<rparr>
                            else i))
                 (installments_details l);
             allPaid = (case details of
                          None \<Rightarrow> False
                        | Some ds \<Rightarrow> list_all (\<lambda>i. inst_status i = inst_paid) ds)
         in if allPaid
            then Inr (l\<lparr>installments_details := details, status := paid,
                        payment_date := Some paymentDate\<rparr>)
            else Inr (l\<lparr>installments_details := details\<rparr>))
      else Inr (l\<lparr>status := paid, payment_date := Some paymentDate\<rparr>))"

definition handleReceivePayment ::
  "int \<Rightarrow> int \<Rightarrow> int \<Rightarrow> AppState \<Rightarrow> Loan \<Rightarrow> string \<Rightarrow> rat \<Rightarrow> string \<Rightarrow> int option
     \<Rightarrow> PaymentType option \<Rightarrow> js_error + AppState" where
  "handleReceivePayment tza today now st loan paymentDate amountPaid accountId installmentNumber paymentType =
     (case mapE (\<lambda>l. if loan_id l = loan_id loan
                       then receivePaymentOn tza today l paymentDate amountPaid installmentNumber paymentType
                       else Inr l) (loans st) of
        Inl e \<Rightarrow> Inl e
      | Inr newLoans \<Rightarrow>
          (let newTransaction =
                 \<lparr>txn_id = ''txn-'' @ numberToString now,
                  txn_accountId = accountId,
                  txn_description =
                    ''Recebimento: ''
                    @ (case clientName loan of None \<Rightarrow> ''undefined'' | Some n \<Rightarrow> n)
                    @ (case installmentNumber of
                         None \<Rightarrow> []
                       | Some n \<Rightarrow> if n = 0 then [] else '' (Parc. '' @ numberToString n @ '')'')
                    @ (if paymentType = Some interest_only then '' (Juros)'' else []),
                  txn_amount = amountPaid,
                  txn_type = credit,
                  txn_date = paymentDate\<rparr>
           in Inr (st\<lparr>loans := newLoans, transactions := newTransaction # transactions st\<rparr>)))"

text \<open>
  \<open>handleAddPromise\<close>; \<open>nowISO\<close> is \<open>new Date().toISOString()\<close>, the clock's reading.
\<close>

definition handleAddPromise :: "string \<Rightarrow> AppState \<Rightarrow> Loan \<Rightarrow> string \<Rightarrow> string \<Rightarrow> AppState" where
  "handleAddPromise nowISO st loan promiseDate promiseNote =
     (let newPromise =
            \<lparr>promise_date = nowISO, promise_note = promiseNote,
             promised_due_date = Some promiseDate\<rparr>
      in st\<lparr>loans :=
              map (\<lambda>l. if loan_id l = loan_id loan
                        then l\<lparr>promise_history := Some (orEmpty (promise_history l) @ [newPromise]),
                               due_date := promiseDate\<rparr>
                        else l)
                  (loans st)\<rparr>)"

text \<open>
  \<open>handleSaveLoan\<close>, the \<open>onSave\<close> of the loan form; \<open>now\<close> is \<open>Date.now()\<close>. The two
  strings with a letter outside ASCII are written in their UTF-8 bytes.
\<close>

definition handleSaveLoan :: "string \<Rightarrow> int \<Rightarrow> Client list \<Rightarrow> AppState \<Rightarrow> Loan \<Rightarrow> AppState" where
  "handleSaveLoan nowISO now clients st loan =
     (let selectedClient = find (\<lambda>c. client_id c = clientId loan) clients;
          loanWithClientName =
            loan\<lparr>clientName :=
                   Some (case selectedClient of
                           None \<Rightarrow> ''Cliente n'' @ [CHR 0xC3, CHR 0xA3] @ ''o encontrado''
                         | Some c \<Rightarrow> client_name c)\<rparr>
      in case editingLoan st of
           Some editing \<Rightarrow>
             (let saved =
                    (if splitT0 (due_date editing) \<noteq> splitT0 (due_date loan)
                     then loanWithClientName
                            \<lparr>due_date_history :=
                               Some (orEmpty (due_date_history editing)
                                     @ [\<lparr>old_due_date = due_date editing,
                                         new_due_date = due_date loan,
                                         change_date = nowISO\<rparr>])\<rparr>
                     else loanWithClientName)
              in st\<lparr>loans := map (\<lambda>l. if loan_id l = loan_id loan then saved else l) (loans st),
                     editingLoan := None\<rparr>)
         | None \<Rightarrow>
             (let newLoan = loanWithClientName\<lparr>loan_id := ''loan-'' @ numberToString now\<rparr>;
                  newTransaction =
                    \<lparr>txn_id = ''txn-'' @ numberToString now,
                     txn_accountId = account_id newLoan,
                     txn_description =
                       ''Empr'' @ [CHR 0xC3, CHR 0xA9] @ ''stimo: ''
                       @ (case clientName newLoan of None \<Rightarrow> ''undefined'' | Some n \<Rightarrow> n),
                     txn_amount = amount_borrowed newLoan,
                     txn_type = debit,
                     txn_date = loan_date newLoan\<rparr>
              in st\<lparr>loans := newLoan # loans st,
                     transactions := newTransaction # transactions st,
                     editingLoan := None\<rparr>))"

section \<open>The loan form (\<open>LoanModal\<close> in \<open>components/Loans.tsx\<close>)\<close>

text \<open>
  The form holds a \<open>Partial<Loan>\<close>: any field may be \<open>undefined\<close>. \<open>handleSubmit\<close>
  either shows one of two alerts and returns, or hands the form to \<open>onSave\<close> as a \<open>Loan\<close>
  (\<open>formData as Loan\<close>, a cast that checks nothing).
\<close>

record LoanForm =
  f_id :: "string option"
  f_clientId :: "string option"
  f_clientName :: "string option"
  f_account_id :: "string option"
  f_amount_borrowed :: "rat option"
  f_amount_to_receive :: "rat option"
  f_interest_rate :: "rat option"
  f_daily_late_fee_amount :: "rat option"
  f_date :: "string option"
  f_due_date :: "string option"
  f_payment_date :: "string option"
  f_status :: "LoanStatus option"
  f_is_ghost :: "bool option"
  f_is_in_negotiation :: "bool option"
  f_modality :: "LoanModality option"
  f_installments :: "int option"
  f_installments_details :: "InstallmentDetail list option"
  f_promise_history :: "PromiseEntry list option"
  f_due_date_history :: "DueDateChange list option"
  f_interest_payments_history :: "InterestPayment list option"
  f_observation :: "string option"
  f_is_archived :: "bool option"

datatype alert =
    RequiredFields   \<comment> \<open>'Preencha todos os campos obrigatorios, incluindo a conta de origem.'\<close>
  | NoInstallments   \<comment> \<open>'Para a modalidade parcelada, por favor, gere e confirme as parcelas.'\<close>

text \<open>\<open>!x\<close> for a string or a number that may be \<open>undefined\<close>.\<close>

definition falsyString :: "string option \<Rightarrow> bool" where
  "falsyString x = (x = None \<or> x = Some [])"

definition falsyNumber :: "rat option \<Rightarrow> bool" where
  "falsyNumber x = (x = None \<or> x = Some 0)"

definition handleSubmit :: "LoanForm \<Rightarrow> alert + LoanForm" where
  "handleSubmit formData =
     (if falsyString (f_clientId formData) \<or> falsyNumber (f_amount_borrowed formData)
         \<or> falsyString (f_due_date formData) \<or> falsyString (f_account_id formData)
      then Inl RequiredFields
      else if f_modality formData = Some Parcelado \<and>
              (case f_installments_details formData of None \<Rightarrow> True | Some ds \<Rightarrow> length ds = 0)
      then Inl NoInstallments
      else Inr formData)"

text \<open>
  The form as the \<open>Loan\<close> that \<open>onSave\<close> receives. A new loan has no \<open>id\<close> yet (\<open>handleSaveLoan\<close>
  gives it one); the model has the empty string there. A form that lacks another field
  that \<open>interface Loan\<close> requires is not a \<open>Loan\<close>, and the model stops at it.
\<close>

definition asLoan :: "LoanForm \<Rightarrow> Loan option" where
  "asLoan f =
     (case (f_clientId f, f_account_id f, f_amount_borrowed f, f_amount_to_receive f,
            f_interest_rate f, f_daily_late_fee_amount f, f_date f, f_due_date f,
            f_status f, f_modality f) of
        (Some c, Some a, Some b, Some r, Some ir, Some fee, Some d, Some dd, Some s, Some m) \<Rightarrow>
          Some \<lparr>loan_id = (case f_id f of None \<Rightarrow> [] | Some i \<Rightarrow> i),
                clientId = c, clientName = f_clientName f, account_id = a,
                amount_borrowed = b, amount_to_receive = r, interest_rate = ir,
                daily_late_fee_amount = fee, loan_date = d, due_date = dd,
                payment_date = f_payment_date f, status = s, is_ghost = f_is_ghost f,
                is_in_negotiation = f_is_in_negotiation f, modality = m,
                installments = f_installments f,
                installments_details = f_installments_details f,
                promise_history = f_promise_history f,
                due_date_history = f_due_date_history f,
                interest_payments_history = f_interest_payments_history f,
                observation = f_observation f, is_archived = f_is_archived f\<rparr>
      | _ \<Rightarrow> None)"

text \<open>
  \<open>submitLoan\<close> is \<open>handleSubmit\<close> with \<open>handleSaveLoan\<close> as its \<open>onSave\<close>, as \<open>LoansPage\<close>
  wires them. Its result is the alert shown and the state, which is then as it was, or
  the state after the save.
\<close>

datatype submitted = Alert alert AppState | NotALoan | Saved AppState

definition submitLoan :: "string \<Rightarrow> int \<Rightarrow> Client list \<Rightarrow> AppState \<Rightarrow> LoanForm \<Rightarrow> submitted" where
  "submitLoan nowISO now clients st formData =
     (case handleSubmit formData of
        Inl a \<Rightarrow> Alert a st
      | Inr f \<Rightarrow>
          (case asLoan f of
             None \<Rightarrow> NotALoan
           | Some loan \<Rightarrow> Saved (handleSaveLoan nowISO now clients st loan)))"

text \<open>
  \<open>handleGenerateInstallments\<close> builds the schedule of an installment loan and puts it
  in the form. \<open>installmentDueDate\<close> is the due date that the loop gives installment
  \<open>i + 1\<close> (lines 625 to 631), \<open>installmentsLoop\<close> the loop over \<open>i\<close> with its running
  \<open>totalAllocated\<close>, returning the installments pushed from \<open>i\<close> on (the handler's
  \<open>installments\<close>, \<open>amount_to_receive\<close>, \<open>due_date\<close> and \<open>amount\<close> are \<open>numInstallments\<close>,
  \<open>amountToReceive\<close>, \<open>dueDate\<close> and \<open>thisAmount\<close> here). \<open>confirmed\<close> is the
  answer to the question the handler asks when an installment is already paid. The
  result is the form as the handler leaves it; with a negative number of installments
  the loop pushes nothing and reading the last installment throws.
\<close>

definition installmentDueDate :: "int \<Rightarrow> jsdate \<Rightarrow> int \<Rightarrow> jsdate" where
  "installmentDueDate tza firstDueDate i =
     (case getMonth tza firstDueDate of
        None \<Rightarrow> None
      | Some currentMonth \<Rightarrow>
          (let currentDueDate = setMonth tza firstDueDate (currentMonth + i)
           in if getMonth tza currentDueDate \<noteq> Some ((currentMonth + i) smod 12)
              then setDate tza currentDueDate 0
              else currentDueDate))"

fun installmentsLoop ::
  "int \<Rightarrow> jsdate \<Rightarrow> rat \<Rightarrow> int \<Rightarrow> rat \<Rightarrow> rat \<Rightarrow> nat list
     \<Rightarrow> js_error + InstallmentDetail list" where
  "installmentsLoop tza firstDueDate amountToReceive numInstallments standardInstallment
       totalAllocated [] = Inr []"
| "installmentsLoop tza firstDueDate amountToReceive numInstallments standardInstallment
       totalAllocated (i # rest) =
     (let isLast = (int i = numInstallments - 1);
          thisAmount = (if isLast then dsub amountToReceive totalAllocated
                        else standardInstallment);
          totalAllocated' = (if isLast then totalAllocated else dadd totalAllocated thisAmount)
      in case toISOString (installmentDueDate tza firstDueDate (int i)) of
           Inl e \<Rightarrow> Inl e
         | Inr due \<Rightarrow>
             (case installmentsLoop tza firstDueDate amountToReceive numInstallments
                     standardInstallment totalAllocated' rest of
                Inl e \<Rightarrow> Inl e
              | Inr pushed \<Rightarrow>
                  Inr (\<lparr>installment_number = int i + 1,
                        amount = parseFloat (toFixed2 thisAmount),
                        inst_due_date = due,
                        inst_status = inst_pending,
                        inst_payment_date = None,
                        inst_amount_paid = None\<rparr> # pushed)))"

definition handleGenerateInstallments :: "int \<Rightarrow> bool \<Rightarrow> LoanForm \<Rightarrow> js_error + LoanForm" where
  "handleGenerateInstallments tza confirmed formData =
     (let hasPaidInstallments =
            (case f_installments_details formData of
               None \<Rightarrow> False
             | Some ds \<Rightarrow> list_ex (\<lambda>i. inst_status i = inst_paid) ds)
      in if hasPaidInstallments \<and> \<not> confirmed then Inr formData
         else
          (case (f_modality formData, f_installments formData, f_amount_to_receive formData,
                 f_due_date formData) of
             (Some Parcelado, Some numInstallments, Some amountToReceive, Some dueDate) \<Rightarrow>
               if numInstallments = 0 \<or> amountToReceive = 0 \<or> dueDate = [] then Inr formData
               else
                 (let firstDueDate = newDateMidnight tza (splitT0 dueDate);
                      standardInstallment =
                        ddiv (Math_floor (dmul (ddiv amountToReceive (of_int numInstallments)) 100)) 100
                  in case installmentsLoop tza firstDueDate amountToReceive numInstallments
                            standardInstallment 0 [0 ..< nat numInstallments] of
                       Inl e \<Rightarrow> Inl e
                     | Inr newInstallments \<Rightarrow>
                         (case rev newInstallments of
                            [] \<Rightarrow> Inl TypeError
                          | lastInstallment # _ \<Rightarrow>
                              Inr (formData\<lparr>f_installments_details := Some newInstallments,
                                             f_due_date := Some (inst_due_date lastInstallment),
                                             f_status := Some pending\<rparr>)))
           | _ \<Rightarrow> Inr formData))"

text \<open>The schedule in a form: the amounts and the due dates of its installments.\<close>

definition scheduleAmounts :: "js_error + LoanForm \<Rightarrow> rat list option" where
  "scheduleAmounts r =
     (case r of
        Inl e \<Rightarrow> None
      | Inr f \<Rightarrow> map_option (map amount) (f_installments_details f))"

definition scheduleDueDates :: "js_error + LoanForm \<Rightarrow> string list option" where
  "scheduleDueDates r =
     (case r of
        Inl e \<Rightarrow> None
      | Inr f \<Rightarrow> map_option (map inst_due_date) (f_installments_details f))"


section \<open>Civil dates, for stating the properties\<close>

text \<open>
  \<open>validYMD y m dt\<close>: day \<open>dt\<close> of month \<open>m\<close> (0 for January, as \<open>Date\<close> counts) exists in
  year \<open>y\<close>. \<open>localMidnight tza y m dt\<close> is the time value of 00:00 local time on that day
  on a host of offset \<open>tza\<close>, and \<open>isoDate y m dt\<close> the text \<open>YYYY-MM-DD\<close> of the day
  (month \<open>m + 1\<close>).
\<close>

definition validYMD :: "int \<Rightarrow> int \<Rightarrow> int \<Rightarrow> bool" where
  "validYMD y m dt = (0 \<le> m \<and> m \<le> 11 \<and> 1 \<le> dt \<and> dt \<le> DaysInMonth y m)"

definition localMidnight :: "int \<Rightarrow> int \<Rightarrow> int \<Rightarrow> int \<Rightarrow> int" where
  "localMidnight tza y m dt = UTC tza (MakeDate (MakeDay y m dt) 0)"

definition isoDate :: "int \<Rightarrow> int \<Rightarrow> int \<Rightarrow> string" where
  "isoDate y m dt = pad4 y @ ''-'' @ pad2 (m + 1) @ ''-'' @ pad2 dt"

text \<open>\<open>notAfter a b\<close>: the civil date \<open>a\<close> (year, month, day) is \<open>b\<close> or earlier.\<close>

definition notAfter :: "int \<times> int \<times> int \<Rightarrow> int \<times> int \<times> int \<Rightarrow> bool" where
  "notAfter a b =
     (case (a, b) of
        ((y, m, d), (Y, M, D)) \<Rightarrow> y < Y \<or> (y = Y \<and> (m < M \<or> (m = M \<and> d \<le> D))))"

text \<open>
  \<open>clampedDueDate y m d i\<close>: the date \<open>i\<close> calendar months after day \<open>d\<close> of month \<open>m\<close> of
  year \<open>y\<close>, on the last day of the month when the month has no day \<open>d\<close>, as the text
  \<open>YYYY-MM-DD\<close>.
\<close>

definition clampedDueDate :: "int \<Rightarrow> int \<Rightarrow> int \<Rightarrow> int \<Rightarrow> string" where
  "clampedDueDate y m d i =
     (let y' = y + (m + i) div 12; m' = (m + i) mod 12
      in isoDate y' m' (min d (DaysInMonth y' m')))"

section \<open>Example data\<close>

text \<open>
  A single-payment loan and an installment loan in the manner of the sample data of
  \<open>constants.ts\<close>, with fixed dates, and two reference dates on a host in Brasilia,
  whose offset is \<open>saoPaulo\<close>; \<open>utcPlusOne\<close> is the offset of a host one hour ahead of
  UTC.
\<close>

definition saoPaulo :: int where "saoPaulo = - 10800000"
definition utcPlusOne :: int where "utcPlusOne = 3600000"

definition exampleLoan :: Loan where
  "exampleLoan =
     \<lparr>loan_id = ''loan-1'', clientId = ''client-1'', clientName = Some ''Ana'',
      account_id = ''acc-1'', amount_borrowed = 1500, amount_to_receive = 1650,
      interest_rate = 10, daily_late_fee_amount = 15, loan_date = ''2025-01-01'',
      due_date = ''2025-01-31'', payment_date = None, status = pending, is_ghost = None,
      is_in_negotiation = None, modality = PagamentoUnico, installments = None,
      installments_details = None, promise_history = None, due_date_history = None,
      interest_payments_history = None, observation = None, is_archived = None\<rparr>"

definition exampleInstallments :: "InstallmentDetail list" where
  "exampleInstallments =
     [\<lparr>installment_number = 1, amount = 93333 / 100, inst_due_date = ''2025-01-10'',
       inst_status = inst_paid, inst_payment_date = Some ''2025-01-09'',
       inst_amount_paid = Some (93333 / 100)\<rparr>,
      \<lparr>installment_number = 2, amount = 93333 / 100, inst_due_date = ''2025-02-10'',
       inst_status = inst_pending, inst_payment_date = None, inst_amount_paid = None\<rparr>,
      \<lparr>installment_number = 3, amount = 93334 / 100, inst_due_date = ''2025-03-10'',
       inst_status = inst_pending, inst_payment_date = None, inst_amount_paid = None\<rparr>]"

definition exampleInstallmentLoan :: Loan where
  "exampleInstallmentLoan =
     exampleLoan\<lparr>loan_id := ''loan-7'', amount_borrowed := 2500, amount_to_receive := 2800,
       interest_rate := 12, daily_late_fee_amount := 20, due_date := ''2025-03-10'',
       modality := Parcelado, installments := Some 3,
       installments_details := Some exampleInstallments\<rparr>"

text \<open>2025-02-05 and 2025-02-15, 00:00 in Brasilia.\<close>

definition feb05 :: int where "feb05 = 1738724400000"
definition feb15 :: int where "feb15 = 1739588400000"


definition exampleState :: AppState where
  "exampleState = \<lparr>loans = [exampleLoan, exampleInstallmentLoan], transactions = [], editingLoan = None\<rparr>"

definition exampleForm :: LoanForm where
  "exampleForm =
     \<lparr>f_id = None, f_clientId = Some ''client-1'', f_clientName = None,
      f_account_id = Some ''acc-1'', f_amount_borrowed = Some 1000,
      f_amount_to_receive = Some 1100, f_interest_rate = Some 10,
      f_daily_late_fee_amount = Some 1, f_date = Some ''2025-01-01'',
      f_due_date = Some ''2025-01-31'', f_payment_date = None, f_status = Some pending,
      f_is_ghost = None, f_is_in_negotiation = None, f_modality = Some PagamentoUnico,
      f_installments = None, f_installments_details = None, f_promise_history = None,
      f_due_date_history = None, f_interest_payments_history = None, f_observation = None,
      f_is_archived = None\<rparr>"

definition emptyState :: AppState where
  "emptyState = \<lparr>loans = [], transactions = [], editingLoan = None\<rparr>"

definition promisedInstallmentLoan :: Loan where
  "promisedInstallmentLoan =
     exampleInstallmentLoan
       \<lparr>promise_history :=
          Some [\<lparr>promise_date = ''2025-01-20T12:00:00.000Z'', promise_note = ''paga dia 25'',
                 promised_due_date = Some ''2025-01-25''\<rparr>],
        due_date := ''2025-01-25''\<rparr>"

definition promisedState :: AppState where
  "promisedState =
     \<lparr>loans = [exampleLoan, promisedInstallmentLoan], transactions = [], editingLoan = None\<rparr>"

definition exampleMonthlyLoan :: Loan where
  "exampleMonthlyLoan =
     exampleLoan\<lparr>loan_id := ''loan-13'', amount_borrowed := 1000, amount_to_receive := 100,
       modality := JurosMensal\<rparr>"

text \<open>
  The form of an installment loan of 1000 at 10 % (1100 to receive), first due on 31
  January 2025, and the same with 82 to receive in five installments.
\<close>

definition exampleInstallmentForm :: "int \<Rightarrow> LoanForm" where
  "exampleInstallmentForm n =
     exampleForm\<lparr>f_modality := Some Parcelado, f_installments := Some n,
                  f_due_date := Some ''2025-01-31''\<rparr>"

definition eightyTwoInFive :: LoanForm where
  "eightyTwoInFive =
     (exampleInstallmentForm 5)\<lparr>f_amount_borrowed := Some 82, f_interest_rate := Some 0,
                                 f_amount_to_receive := Some 82\<rparr>"

section \<open>Properties of the calendar\<close>

lemma div_step:
  fixes n k :: int
  assumes "0 < k"
  shows "(n + 1) div k = n div k + (if (n + 1) mod k = 0 then 1 else 0)"
proof (cases "n mod k = k - 1")
  case True
  have "n + 1 = k * (n div k) + n mod k + 1" by simp
  also have "\<dots> = k * (n div k) + (k - 1) + 1" by (simp only: True)
  also have "\<dots> = k * (n div k + 1) + 0" by (simp add: algebra_simps)
  finally have "(n + 1) div k = n div k + 1" and "(n + 1) mod k = 0"
    using assms int_div_pos_eq [of "n + 1" k "n div k + 1" 0] int_mod_pos_eq [of "n + 1" k "n div k + 1" 0]
    by auto
  then show ?thesis by simp
next
  case False
  have "n mod k < k" and "0 \<le> n mod k" using assms by simp_all
  with False have r: "0 \<le> n mod k + 1" "n mod k + 1 < k" by linarith+
  have "n + 1 = k * (n div k) + (n mod k + 1)" by simp
  then have "(n + 1) div k = n div k" and "(n + 1) mod k = n mod k + 1"
    using r int_div_pos_eq [of "n + 1" k "n div k" "n mod k + 1"]
      int_mod_pos_eq [of "n + 1" k "n div k" "n mod k + 1"]
    by auto
  then show ?thesis using r \<open>0 \<le> n mod k\<close> by auto
qed

lemma mod_shift: "((y::int) - k * c) mod k = y mod k"
  by algebra

lemma DayFromYear_Suc: "DayFromYear (y + 1) = DayFromYear y + DaysInYear y"
proof -
  have a: "(y - 1968) div 4 = (y - 1969) div 4 + (if y mod 4 = 0 then 1 else 0)"
    using div_step [of 4 "y - 1969"] mod_shift [of y 4 492] by simp
  have b: "(y - 1900) div 100 = (y - 1901) div 100 + (if y mod 100 = 0 then 1 else 0)"
    using div_step [of 100 "y - 1901"] mod_shift [of y 100 19] by simp
  have c: "(y - 1600) div 400 = (y - 1601) div 400 + (if y mod 400 = 0 then 1 else 0)"
    using div_step [of 400 "y - 1601"] mod_shift [of y 400 4] by simp
  have m1: "y mod 400 = 0 \<Longrightarrow> y mod 100 = 0" by force
  have m2: "y mod 100 = 0 \<Longrightarrow> y mod 4 = 0" by force
  show ?thesis
    using m1 m2 by (auto simp add: DayFromYear_def DaysInYear_def a b c)
qed

lemma DaysInYear_cases: "DaysInYear y = 365 \<or> DaysInYear y = 366"
  by (simp add: DaysInYear_def)

lemma DayFromYear_less: "DayFromYear y < DayFromYear (y + 1)"
  using DaysInYear_cases [of y] by (auto simp add: DayFromYear_Suc)

lemma DayFromYear_mono: "y \<le> z \<Longrightarrow> DayFromYear y \<le> DayFromYear z"
proof -
  assume "y \<le> z"
  then obtain n where "z = y + int n" by (metis zle_iff_zadd)
  moreover have "DayFromYear y \<le> DayFromYear (y + int n)"
  proof (induction n)
    case 0 show ?case by simp
  next
    case (Suc n)
    have "y + int (Suc n) = (y + int n) + 1" by simp
    then have "DayFromYear (y + int n) < DayFromYear (y + int (Suc n))"
      using DayFromYear_less [of "y + int n"] by (simp only:)
    with Suc show ?case by linarith
  qed
  ultimately show ?thesis by simp
qed

lemma DayFromYear_ge_after: "365 * int n \<le> DayFromYear (1970 + int n)"
proof (induction n)
  case 0 show ?case by (simp add: DayFromYear_def)
next
  case (Suc n)
  have "1970 + int (Suc n) = (1970 + int n) + 1" by simp
  then have "DayFromYear (1970 + int (Suc n)) = DayFromYear (1970 + int n) + DaysInYear (1970 + int n)"
    by (simp only: DayFromYear_Suc)
  then show ?case using Suc DaysInYear_cases [of "1970 + int n"] by auto
qed

lemma DayFromYear_ge_before: "- 366 * int n \<le> DayFromYear (1970 - int n)"
proof (induction n)
  case 0 show ?case by (simp add: DayFromYear_def)
next
  case (Suc n)
  have "1970 - int n = (1970 - int (Suc n)) + 1" by simp
  then have "DayFromYear (1970 - int n) = DayFromYear (1970 - int (Suc n)) + DaysInYear (1970 - int (Suc n))"
    by (simp only: DayFromYear_Suc)
  then show ?case using Suc DaysInYear_cases [of "1970 - int (Suc n)"] by auto
qed

lemma estimate_above:
  "d < DayFromYear ((if 0 \<le> d then 1971 + d div 365 else 1971 + d div 366) + 1)"
proof (cases "0 \<le> d")
  case True
  then have q: "0 \<le> d div 365" by (simp add: pos_imp_zdiv_nonneg_iff)
  define q r where "q = d div 365" and "r = d mod 365"
  have "d = 365 * q + r" and "r < 365" by (simp_all add: q_def r_def)
  then have "d < 365 * (q + 2)" by simp
  then have "d < 365 * (d div 365 + 2)" by (simp only: q_def)
  moreover have "365 * (d div 365 + 2) \<le> DayFromYear (1970 + (d div 365 + 2))"
    using DayFromYear_ge_after [of "nat (d div 365 + 2)"] q by simp
  ultimately show ?thesis using True by (simp add: add.commute add.left_commute)
next
  case False
  define q r where "q = d div 366" and "r = d mod 366"
  have "d = 366 * q + r" and "r < 366" by (simp_all add: q_def r_def)
  then have "d < 366 * (q + 2)" by simp
  then have dq: "d < 366 * (d div 366 + 2)" by (simp only: q_def)
  show ?thesis
  proof (cases "d div 366 + 2 \<le> 0")
    case True
    have "- 366 * int (nat (- (d div 366 + 2))) \<le> DayFromYear (1970 - int (nat (- (d div 366 + 2))))"
      by (rule DayFromYear_ge_before)
    then have "366 * (d div 366 + 2) \<le> DayFromYear (1970 + (d div 366 + 2))"
      using True by simp
    moreover note dq
    ultimately show ?thesis using False by (simp add: add.commute add.left_commute)
  next
    case F2: False
    have "d div 366 < 0" using False by (simp add: div_neg_pos_less0)
    with F2 have "d div 366 = -1" by linarith
    then show ?thesis using False by (simp add: DayFromYear_def)
  qed
qed

lemma yearAtOrBefore_spec:
  "d < DayFromYear (y + 1) \<Longrightarrow>
     DayFromYear (yearAtOrBefore d y) \<le> d \<and> d < DayFromYear (yearAtOrBefore d y + 1)"
proof (induction d y rule: yearAtOrBefore.induct)
  case (1 d y)
  show ?case
  proof (cases "DayFromYear y \<le> d")
    case True
    then show ?thesis using "1.prems" by simp
  next
    case False
    then have "d < DayFromYear (y - 1 + 1)" by simp
    with False "1.IH" have "DayFromYear (yearAtOrBefore d (y - 1)) \<le> d
        \<and> d < DayFromYear (yearAtOrBefore d (y - 1) + 1)" by blast
    moreover have "yearAtOrBefore d y = yearAtOrBefore d (y - 1)"
      using False by (subst yearAtOrBefore.simps) simp
    ultimately show ?thesis by simp
  qed
qed

lemma YearFromDay_spec:
  "DayFromYear (YearFromDay d) \<le> d \<and> d < DayFromYear (YearFromDay d + 1)"
  unfolding YearFromDay_def by (rule yearAtOrBefore_spec) (rule estimate_above)

lemma YearFromDay_unique:
  assumes "DayFromYear y \<le> d" and "d < DayFromYear (y + 1)"
  shows "YearFromDay d = y"
proof (rule ccontr)
  assume ne: "YearFromDay d \<noteq> y"
  let ?r = "YearFromDay d"
  have s: "DayFromYear ?r \<le> d" "d < DayFromYear (?r + 1)"
    using YearFromDay_spec [of d] by simp_all
  show False
  proof (cases "?r < y")
    case True
    then have "DayFromYear (?r + 1) \<le> DayFromYear y" by (intro DayFromYear_mono) simp
    with s assms show False by linarith
  next
    case False
    with ne have "y + 1 \<le> ?r" by simp
    then have "DayFromYear (y + 1) \<le> DayFromYear ?r" by (rule DayFromYear_mono)
    with s assms show False by linarith
  qed
qed

lemma month_cases:
  assumes "0 \<le> (m::int)" "m \<le> 11"
  obtains "m = 0" | "m = 1" | "m = 2" | "m = 3" | "m = 4" | "m = 5"
    | "m = 6" | "m = 7" | "m = 8" | "m = 9" | "m = 10" | "m = 11"
proof -
  have "m = 0 \<or> m = 1 \<or> m = 2 \<or> m = 3 \<or> m = 4 \<or> m = 5
      \<or> m = 6 \<or> m = 7 \<or> m = 8 \<or> m = 9 \<or> m = 10 \<or> m = 11"
    using assms by arith
  then show thesis using that by blast
qed

lemma firstDayOfMonth_next:
  assumes "0 \<le> m" "m \<le> 10"
  shows "firstDayOfMonth y (m + 1) = firstDayOfMonth y m + DaysInMonth y m"
proof -
  have "0 \<le> m" "m \<le> 11" using assms by simp_all
  then show ?thesis
    by (cases m rule: month_cases)
      (insert assms DaysInYear_cases [of y], auto simp add: firstDayOfMonth_def DaysInMonth_def)
qed

lemma firstDayOfMonth_lower:
  assumes "0 \<le> m" "m \<le> 11"
  shows "DayFromYear y \<le> firstDayOfMonth y m"
  using assms
  by (cases m rule: month_cases) (auto simp add: firstDayOfMonth_def)

lemma firstDayOfMonth_upper:
  assumes "0 \<le> m" "m \<le> 11"
  shows "firstDayOfMonth y m + DaysInMonth y m \<le> DayFromYear (y + 1)"
  using assms
  by (cases m rule: month_cases)
    (insert DaysInYear_cases [of y], auto simp add: firstDayOfMonth_def DaysInMonth_def DayFromYear_Suc)

lemma YearFromDay_civil:
  assumes "validYMD y m dt"
  shows "YearFromDay (firstDayOfMonth y m + dt - 1) = y"
proof (rule YearFromDay_unique)
  show "DayFromYear y \<le> firstDayOfMonth y m + dt - 1"
    using assms firstDayOfMonth_lower [of m y] by (simp add: validYMD_def)
  show "firstDayOfMonth y m + dt - 1 < DayFromYear (y + 1)"
    using assms firstDayOfMonth_upper [of m y] by (simp add: validYMD_def)
qed

lemma civil_of_day:
  assumes v: "validYMD y m dt" and D: "Day t = firstDayOfMonth y m + dt - 1"
  shows "YearFromTime t = y" and "MonthFromTime t = m" and "DateFromTime t = dt"
proof -
  show y: "YearFromTime t = y"
    using YearFromDay_civil [OF v] D by (simp add: YearFromTime_def)
  have m: "0 \<le> m" "m \<le> 11" and dt: "1 \<le> dt" "dt \<le> DaysInMonth y m"
    using v by (simp_all add: validYMD_def)
  have dwy: "DayWithinYear t = firstDayOfMonth y m + dt - 1 - DayFromYear y"
    by (simp add: DayWithinYear_def y D)
  have l: "InLeapYear t = (if DaysInYear y = 366 then 1 else 0)"
    by (simp add: InLeapYear_def y)
  show mt: "MonthFromTime t = m"
    using m
    by (cases m rule: month_cases)
      (insert dt DaysInYear_cases [of y], auto simp add: MonthFromTime_def dwy l firstDayOfMonth_def DaysInMonth_def)
  show "DateFromTime t = dt"
    using m
    by (cases m rule: month_cases)
      (insert dt DaysInYear_cases [of y], auto simp add: DateFromTime_def mt dwy l firstDayOfMonth_def DaysInMonth_def)
qed


subsection \<open>Local midnights\<close>

lemma LocalTime_UTC: "LocalTime z (UTC z x) = x"
  by (simp add: LocalTime_def UTC_def)

lemma Day_MakeDate0: "Day (MakeDate D 0) = D"
  by (simp add: Day_def MakeDate_def msPerDay_def)

lemma TimeWithinDay_MakeDate0: "TimeWithinDay (MakeDate D 0) = 0"
  by (simp add: TimeWithinDay_def MakeDate_def msPerDay_def)

lemma MakeDay_norm: "MakeDay y M dt = firstDayOfMonth (y + M div 12) (M mod 12) + dt - 1"
  by (simp add: MakeDay_def)

lemma MakeDay_valid: "0 \<le> m \<Longrightarrow> m \<le> 11 \<Longrightarrow> MakeDay y m dt = firstDayOfMonth y m + dt - 1"
  by (simp add: MakeDay_def)

lemma local_fields:
  assumes "validYMD y m dt"
  shows "YearFromTime (LocalTime z (localMidnight z y m dt)) = y"
    and "MonthFromTime (LocalTime z (localMidnight z y m dt)) = m"
    and "DateFromTime (LocalTime z (localMidnight z y m dt)) = dt"
    and "TimeWithinDay (LocalTime z (localMidnight z y m dt)) = 0"
proof -
  have m: "0 \<le> m" "m \<le> 11" using assms by (simp_all add: validYMD_def)
  have D: "Day (LocalTime z (localMidnight z y m dt)) = firstDayOfMonth y m + dt - 1"
    by (simp add: localMidnight_def LocalTime_UTC Day_MakeDate0 MakeDay_valid m)
  show "YearFromTime (LocalTime z (localMidnight z y m dt)) = y"
    and "MonthFromTime (LocalTime z (localMidnight z y m dt)) = m"
    and "DateFromTime (LocalTime z (localMidnight z y m dt)) = dt"
    using civil_of_day [OF assms D] by simp_all
  show "TimeWithinDay (LocalTime z (localMidnight z y m dt)) = 0"
    by (simp add: localMidnight_def LocalTime_UTC TimeWithinDay_MakeDate0)
qed

lemma MakeDay_bounds:
  assumes "validYMD y m dt"
  shows "DayFromYear y \<le> MakeDay y m dt" and "MakeDay y m dt < DayFromYear (y + 1)"
proof -
  have m: "0 \<le> m" "m \<le> 11" and dt: "1 \<le> dt" "dt \<le> DaysInMonth y m"
    using assms by (simp_all add: validYMD_def)
  show "DayFromYear y \<le> MakeDay y m dt"
    using firstDayOfMonth_lower [OF m, of y] dt by (simp add: MakeDay_valid m)
  show "MakeDay y m dt < DayFromYear (y + 1)"
    using firstDayOfMonth_upper [OF m, of y] dt by (simp add: MakeDay_valid m)
qed

lemma TimeClip_localMidnight:
  assumes v: "validYMD y m dt" and lo: "- 271820 \<le> y" and hi: "y \<le> 275759"
    and z: "- 86400000 < z" "z < 86400000"
  shows "TimeClip (localMidnight z y m dt) = Some (localMidnight z y m dt)"
proof -
  have "DayFromYear (- 271820) \<le> DayFromYear y" using lo by (rule DayFromYear_mono)
  moreover have "DayFromYear (y + 1) \<le> DayFromYear 275760"
    using hi by (intro DayFromYear_mono) simp
  moreover have "DayFromYear (- 271820) = - 99999744" and "DayFromYear 275760 = 99999744"
    by (simp_all add: DayFromYear_def)
  ultimately have "- 99999744 \<le> MakeDay y m dt" and "MakeDay y m dt < 99999744"
    using MakeDay_bounds [OF v] by linarith+
  then show ?thesis
    using z by (simp add: TimeClip_def localMidnight_def UTC_def MakeDate_def msPerDay_def)
qed

lemma getMonth_localMidnight:
  "validYMD y m dt \<Longrightarrow> getMonth z (Some (localMidnight z y m dt)) = Some m"
  by (simp add: getMonth_def local_fields)

lemma setMonth_localMidnight:
  "validYMD y m dt \<Longrightarrow>
     setMonth z (Some (localMidnight z y m dt)) M = TimeClip (localMidnight z y M dt)"
  by (simp add: setMonth_def Let_def local_fields localMidnight_def [of z y M dt])

lemma setDate_localMidnight:
  "validYMD y m dt \<Longrightarrow>
     setDate z (Some (localMidnight z y m dt)) k = TimeClip (localMidnight z y m k)"
  by (simp add: setDate_def Let_def local_fields localMidnight_def [of z y m k])

lemma localMidnight_norm:
  "localMidnight z y M dt = localMidnight z (y + M div 12) (M mod 12) dt"
  by (simp add: localMidnight_def MakeDay_def)


lemma DaysInMonth_bounds: "28 \<le> DaysInMonth y m" "DaysInMonth y m \<le> 31"
  by (simp_all add: DaysInMonth_def)

lemma localMidnight_overflow:
  assumes "0 \<le> m" "m \<le> 10"
  shows "localMidnight z y m dt = localMidnight z y (m + 1) (dt - DaysInMonth y m)"
  using assms firstDayOfMonth_next [OF assms, of y]
  by (simp add: localMidnight_def MakeDay_valid)

lemma smod_nonneg_12: "0 \<le> k \<Longrightarrow> k smod 12 = k mod (12::int)"
  by (cases "k = 0") (simp_all add: smod_int_alt_def)

lemma installmentDueDate_clamp:
  assumes v: "validYMD y m d" and i: "0 \<le> i" and lo: "- 271820 \<le> y"
    and hi: "y + (m + i) div 12 \<le> 275759"
    and z: "- 86400000 < z" "z < 86400000"
  shows "installmentDueDate z (Some (localMidnight z y m d)) i =
           Some (localMidnight z (y + (m + i) div 12) ((m + i) mod 12)
                   (min d (DaysInMonth (y + (m + i) div 12) ((m + i) mod 12))))"
proof -
  define y' m' where "y' = y + (m + i) div 12" and "m' = (m + i) mod 12"
  have m: "0 \<le> m" "m \<le> 11" and d: "1 \<le> d" "d \<le> DaysInMonth y m"
    using v by (simp_all add: validYMD_def)
  have m': "0 \<le> m'" "m' \<le> 11" by (simp_all add: m'_def) 
  have "0 \<le> (m + i) div 12" using m i by (simp add: pos_imp_zdiv_nonneg_iff)
  then have y': "- 271820 \<le> y'" "y' \<le> 275759" using lo hi by (simp_all add: y'_def)
  have sm: "(m + i) smod 12 = m'" using m i by (simp add: smod_nonneg_12 m'_def)
  have set1: "setMonth z (Some (localMidnight z y m d)) (m + i) = TimeClip (localMidnight z y' m' d)"
    using localMidnight_norm [of z y "m + i" d]
    by (simp add: setMonth_localMidnight [OF v] y'_def m'_def)
  show ?thesis
  proof (cases "d \<le> DaysInMonth y' m'")
    case True
    then have v': "validYMD y' m' d" using m' d by (simp add: validYMD_def)
    have "setMonth z (Some (localMidnight z y m d)) (m + i) = Some (localMidnight z y' m' d)"
      using set1 TimeClip_localMidnight [OF v' y' z] by simp
    then show ?thesis
      using True
      by (simp add: installmentDueDate_def getMonth_localMidnight [OF v]
          getMonth_localMidnight [OF v'] sm Let_def y'_def [symmetric] m'_def [symmetric])
  next
    case False
    let ?dim = "DaysInMonth y' m'"
    have d31: "d \<le> 31" using d DaysInMonth_bounds [of y m] by linarith
    have "m' \<noteq> 11" using False d31 by (auto simp add: DaysInMonth_def)
    then have m10: "m' \<le> 10" using m' by linarith
    have over: "localMidnight z y' m' d = localMidnight z y' (m' + 1) (d - ?dim)"
      using localMidnight_overflow [OF m'(1) m10] by simp
    have vo: "validYMD y' (m' + 1) (d - ?dim)"
      using False d31 m' m10 DaysInMonth_bounds [of y' m'] DaysInMonth_bounds [of y' "m' + 1"]
      by (simp add: validYMD_def)
    have vl: "validYMD y' m' ?dim"
      using m' DaysInMonth_bounds [of y' m'] by (simp add: validYMD_def)
    have last: "localMidnight z y' (m' + 1) 0 = localMidnight z y' m' ?dim"
      using localMidnight_overflow [OF m'(1) m10, of z y' ?dim] by simp
    have s1: "setMonth z (Some (localMidnight z y m d)) (m + i)
                = Some (localMidnight z y' (m' + 1) (d - ?dim))"
      using set1 over TimeClip_localMidnight [OF vo y' z] by simp
    have s2: "setDate z (Some (localMidnight z y' (m' + 1) (d - ?dim))) 0
                = Some (localMidnight z y' m' ?dim)"
      using setDate_localMidnight [OF vo, of z 0] last TimeClip_localMidnight [OF vl y' z] by simp
    show ?thesis
      using False
      by (simp add: installmentDueDate_def getMonth_localMidnight [OF v] s1 s2
          getMonth_localMidnight [OF vo] sm Let_def y'_def [symmetric] m'_def [symmetric])
  qed
qed


subsection \<open>Date strings\<close>

lemma of_char_digitChar:
  assumes "0 \<le> d" "d \<le> 9"
  shows "of_char (digitChar d) = (48 + d :: int)"
proof -
  have "(48 + d) mod 256 = 48 + d" using assms by simp
  then show ?thesis by (simp add: digitChar_def)
qed

lemma digitChar_props:
  assumes "0 \<le> d" "d \<le> 9"
  shows "isDigit (digitChar d)" and "digitOf (digitChar d) = d"
    and "digitChar d \<noteq> CHR ''T''" and "digitChar d \<noteq> CHR ''-''" and "digitChar d \<noteq> CHR ''+''"
proof -
  note oc = of_char_digitChar [OF assms]
  show "isDigit (digitChar d)" using assms by (simp add: isDigit_def oc)
  show "digitOf (digitChar d) = d" by (simp add: digitOf_def oc)
  have "(of_char (digitChar d) :: int) \<noteq> of_char (CHR ''T'')" using assms by (simp add: oc)
  then show "digitChar d \<noteq> CHR ''T''" by metis
  have "(of_char (digitChar d) :: int) \<noteq> of_char (CHR ''-'')" using assms by (simp add: oc)
  then show "digitChar d \<noteq> CHR ''-''" by metis
  have "(of_char (digitChar d) :: int) \<noteq> of_char (CHR ''+'')" using assms by (simp add: oc)
  then show "digitChar d \<noteq> CHR ''+''" by metis
qed

lemma mod10_le9 [simp]: "(x::int) mod 10 \<le> 9"
  using pos_mod_bound [of 10 x] by linarith

lemma foldl_digits:
  "list_all (\<lambda>d. 0 \<le> d \<and> d \<le> 9) ds \<Longrightarrow>
     foldl (\<lambda>a c. 10 * a + digitOf c) acc (map digitChar ds) = foldl (\<lambda>a x. 10 * a + x) acc ds"
  by (induction ds arbitrary: acc) (simp_all add: digitChar_props)

lemma all_digits:
  "list_all (\<lambda>d. 0 \<le> d \<and> d \<le> 9) ds \<Longrightarrow> list_all isDigit (map digitChar ds)"
  by (induction ds) (simp_all add: digitChar_props)

lemma parseDigits_map:
  assumes "ds \<noteq> []" and "list_all (\<lambda>d. 0 \<le> d \<and> d \<le> 9) ds"
  shows "parseDigits (map digitChar ds) = Some (foldl (\<lambda>a x. 10 * a + x) 0 ds)"
  using assms by (simp add: parseDigits_def all_digits foldl_digits)

lemma parseDigits_pad2:
  assumes "0 \<le> v" "v \<le> 99"
  shows "parseDigits (pad2 v) = Some v"
proof -
  have "v div 10 mod 10 = v div 10" using assms by simp
  moreover have "pad2 v = map digitChar [v div 10 mod 10, v mod 10]" by (simp add: pad2_def)
  moreover have "parseDigits (map digitChar [v div 10 mod 10, v mod 10])
      = Some (foldl (\<lambda>a x. 10 * a + x) 0 [v div 10 mod 10, v mod 10])"
    by (rule parseDigits_map) simp_all
  ultimately show ?thesis by simp
qed

lemma digits_combine:
  "v = 10 * q1 + e \<Longrightarrow> q1 = 10 * q2 + c \<Longrightarrow> q2 = 10 * a + b \<Longrightarrow>
     10 * (10 * (10 * a + b) + c) + e = (v::int)"
  by simp

lemma digits4:
  assumes "0 \<le> (v::int)" "v \<le> 9999"
  shows "10 * (10 * (10 * (v div 1000 mod 10) + v div 100 mod 10) + v div 10 mod 10) + v mod 10 = v"
proof -
  have a: "v div 1000 mod 10 = v div 1000" using assms by simp
  have p1: "v = 10 * (v div 10) + v mod 10"
    by (rule mult_div_mod_eq [symmetric])
  have h2: "v div 10 div 10 = v div 100" by (simp add: div_mult2_eq [symmetric])
  have "v div 10 = 10 * (v div 10 div 10) + v div 10 mod 10"
    by (rule mult_div_mod_eq [symmetric])
  then have p2: "v div 10 = 10 * (v div 100) + v div 10 mod 10" by (simp only: h2)
  have h3: "v div 100 div 10 = v div 1000" by (simp add: div_mult2_eq [symmetric])
  have "v div 100 = 10 * (v div 100 div 10) + v div 100 mod 10"
    by (rule mult_div_mod_eq [symmetric])
  then have p3: "v div 100 = 10 * (v div 1000) + v div 100 mod 10" by (simp only: h3)
  from digits_combine [OF p1 p2 p3] show ?thesis by (simp only: a)
qed

lemma parseDigits_pad4:
  assumes "0 \<le> v" "v \<le> 9999"
  shows "parseDigits (pad4 v) = Some v"
proof -
  let ?ds = "[v div 1000 mod 10, v div 100 mod 10, v div 10 mod 10, v mod 10]"
  have "pad4 v = map digitChar ?ds" by (simp add: pad4_def pad3_def pad2_def)
  moreover have "parseDigits (map digitChar ?ds) = Some (foldl (\<lambda>a x. 10 * a + x) 0 ?ds)"
    by (rule parseDigits_map) simp_all
  moreover have "foldl (\<lambda>a x. 10 * a + x) 0 ?ds = v"
    by (simp only: foldl_Cons foldl_Nil mult_zero_right add_0_left digits4 [OF assms])
  ultimately show ?thesis by (simp only:)
qed


lemma digitChar_literals:
  "digitChar 0 = CHR ''0''" "digitChar 3 = CHR ''3''"
  by (simp_all add: digitChar_def char_of_def)

lemma pad2_length [simp]: "length (pad2 v) = 2"
  by (simp add: pad2_def)

lemma pad4_length [simp]: "length (pad4 v) = 4"
  by (simp add: pad4_def pad3_def pad2_def)

lemma pad4_head: "\<exists>cs. pad4 v = digitChar (v div 1000 mod 10) # cs"
  by (simp add: pad4_def)

lemma parseYear_pad4:
  assumes "0 \<le> y" "y \<le> 9999"
  shows "parseYear (pad4 y @ r) = Some (y, r)"
proof -
  obtain cs where cs: "pad4 y = digitChar (y div 1000 mod 10) # cs"
    using pad4_head by blast
  have ne: "digitChar (y div 1000 mod 10) \<noteq> CHR ''+''" "digitChar (y div 1000 mod 10) \<noteq> CHR ''-''"
    by (simp_all add: digitChar_props)
  have t: "take 4 (pad4 y @ r) = pad4 y" and d: "drop 4 (pad4 y @ r) = r" by simp_all
  have "parseYear (pad4 y @ r) =
      (case parseDigits (take 4 (pad4 y @ r)) of
         None \<Rightarrow> None
       | Some v \<Rightarrow> if length (pad4 y @ r) < 4 then None else Some (v, drop 4 (pad4 y @ r)))"
    unfolding parseYear_def using ne by (simp add: cs)
  then show ?thesis by (simp add: t d parseDigits_pad4 [OF assms])
qed

lemma parseDashed2_pad2:
  assumes "0 \<le> v" "v \<le> 99"
  shows "parseDashed2 (CHR ''-'' # pad2 v @ r) = Some (v, r)"
  by (simp add: parseDashed2_def parseDigits_pad2 [OF assms])

lemma parseDate_isoDate:
  assumes v: "validYMD y m d" and y: "0 \<le> y" "y \<le> 9999"
  shows "parseDate (isoDate y m d) = Some (y, m + 1, d)"
proof -
  have m: "0 \<le> m" "m \<le> 11" and d: "1 \<le> d" "d \<le> DaysInMonth y m"
    using v by (simp_all add: validYMD_def)
  have d99: "0 \<le> d" "d \<le> 99" using d DaysInMonth_bounds [of y m] by linarith+
  have m99: "0 \<le> m + 1" "m + 1 \<le> 99" using m by linarith+
  have iso: "isoDate y m d = pad4 y @ (CHR ''-'' # pad2 (m + 1) @ (CHR ''-'' # pad2 d @ []))"
    by (simp add: isoDate_def)
  show ?thesis
    unfolding iso parseDate_def
    using m d
    by (simp add: parseYear_pad4 [OF y] parseDashed2_pad2 [OF m99]
        parseDashed2_pad2 [OF d99, of "[]", simplified])
qed

lemma newDateMidnight_isoDate:
  assumes v: "validYMD y m d" and y: "0 \<le> y" "y \<le> 9999"
    and z: "- 86400000 < z" "z < 86400000"
  shows "newDateMidnight z (isoDate y m d) = Some (localMidnight z y m d)"
  using TimeClip_localMidnight [OF v _ _ z] y
  by (simp add: newDateMidnight_def parseDate_isoDate [OF v y] localMidnight_def)

lemma isoDate_no_T: "\<forall>c \<in> set (isoDate y m d). c \<noteq> CHR ''T''"
  by (simp add: isoDate_def pad4_def pad3_def pad2_def digitChar_props)

lemma splitT0_isoDate:
  assumes "rest = [] \<or> hd rest = CHR ''T''"
  shows "splitT0 (isoDate y m d @ rest) = isoDate y m d"
proof -
  have "takeWhile (\<lambda>c. c \<noteq> CHR ''T'') rest = []"
    using assms by (cases rest) auto
  then show ?thesis
    using isoDate_no_T [of y m d] by (simp add: splitT0_def)
qed


lemma localMidnight_value: "localMidnight z y m d = MakeDay y m d * 86400000 - z"
  by (simp add: localMidnight_def UTC_def MakeDate_def msPerDay_def)

text \<open>
  On a host at or behind UTC (and less than a day behind), the local midnight of a day
  falls on the same day of UTC, and \<open>toISOString\<close> prints that day before the \<open>T\<close>.
\<close>

lemma Day_within:
  assumes "0 \<le> w" "w < 86400000"
  shows "Day (D * 86400000 + w) = D"
  using assms by (simp add: Day_def msPerDay_def div_pos_pos_trivial)

lemma toISOString_localMidnight:
  assumes v: "validYMD y m d" and y: "0 \<le> y" "y \<le> 9999"
    and z: "- 86400000 < z" "z \<le> 0"
  shows "\<exists>clock. toISOString (Some (localMidnight z y m d)) = Inr (isoDate y m d @ CHR ''T'' # clock)"
proof -
  define tv where "tv = localMidnight z y m d"
  have mm: "0 \<le> m" "m \<le> 11" using v by (simp_all add: validYMD_def)
  have val: "tv = MakeDay y m d * 86400000 + (- z)"
    by (simp add: tv_def localMidnight_value)
  have "Day tv = MakeDay y m d"
    unfolding val using z by (intro Day_within) simp_all
  then have D: "Day tv = firstDayOfMonth y m + d - 1"
    by (simp add: MakeDay_valid mm)
  note f = civil_of_day [OF v D]
  have "\<exists>clock. toISOString (Some tv) = Inr (isoDate y m d @ CHR ''T'' # clock)"
    using y by (simp add: toISOString_def f Let_def isoDate_def)
  then show ?thesis by (simp only: tv_def)
qed

lemma splitT0_toISOString_localMidnight:
  assumes v: "validYMD y m d" and y: "0 \<le> y" "y \<le> 9999"
    and z: "- 86400000 < z" "z \<le> 0"
    and s: "toISOString (Some (localMidnight z y m d)) = Inr s"
  shows "splitT0 s = isoDate y m d"
proof -
  obtain clock where "toISOString (Some (localMidnight z y m d)) = Inr (isoDate y m d @ CHR ''T'' # clock)"
    using toISOString_localMidnight [OF v y z] by blast
  then have "s = isoDate y m d @ CHR ''T'' # clock" using s by simp
  then show ?thesis by (simp add: splitT0_isoDate)
qed


section \<open>The reference dates of the examples\<close>

lemma getTodayInBrasilia_feb05: "getTodayInBrasilia saoPaulo (5, 2, 2025) = Some feb05"
  by code_simp


section \<open>The outstanding balance\<close>

text \<open>
  Claim C4. For every loan whose stored status is \<open>paid\<close> or whose \<open>is_archived\<close> flag is
  true, \<open>calculateCurrentOutstandingBalance\<close> returns exactly 0, whatever the modality,
  the installments, the due dates and the reference date.
\<close>

theorem paid_or_archived_balance_zero:
  assumes "status loan = paid \<or> is_archived loan = Some True"
  shows "calculateCurrentOutstandingBalance z today loan = 0"
  using assms by (simp add: calculateCurrentOutstandingBalance_def)

theorem paid_or_archived_balance_zero_witness:
  "is_archived (exampleInstallmentLoan\<lparr>is_archived := Some True\<rparr>) = Some True
   \<and> calculateCurrentOutstandingBalance saoPaulo feb15 (exampleInstallmentLoan\<lparr>is_archived := Some True\<rparr>) = 0
   \<and> calculateCurrentOutstandingBalance saoPaulo feb15 exampleInstallmentLoan \<noteq> 0"
proof -
  have a: "is_archived (exampleInstallmentLoan\<lparr>is_archived := Some True\<rparr>) = Some True" by simp
  have "calculateCurrentOutstandingBalance saoPaulo feb15 (exampleInstallmentLoan\<lparr>is_archived := Some True\<rparr>) = 0"
    using a by (intro paid_or_archived_balance_zero) simp
  moreover have "calculateCurrentOutstandingBalance saoPaulo feb15 exampleInstallmentLoan \<noteq> 0"
    by code_simp
  ultimately show ?thesis using a by simp
qed



text \<open>
  The late fee of a due date never decreases when the reference date moves on, and so
  neither does the sum over the unpaid installments.
\<close>

lemma lateFeeOf_nonneg:
  assumes "0 \<le> daily_late_fee_amount loan"
  shows "0 \<le> lateFeeOf z today loan s"
proof (cases "newDateMidnight z (splitT0 s)")
  case None
  then show ?thesis by (simp add: lateFeeOf_def)
next
  case (Some due)
  show ?thesis
  proof (cases "due < today")
    case True
    then have "0 \<le> (today - due) div 86400000" by (simp add: pos_imp_zdiv_nonneg_iff)
    then show ?thesis using Some True assms by (simp add: lateFeeOf_def orZero_def)
  next
    case False
    then show ?thesis using Some by (simp add: lateFeeOf_def)
  qed
qed

lemma lateFeeOf_mono:
  assumes t: "today1 \<le> today2" and fee: "0 \<le> daily_late_fee_amount loan"
  shows "lateFeeOf z today1 loan s \<le> lateFeeOf z today2 loan s"
proof (cases "newDateMidnight z (splitT0 s)")
  case None
  then show ?thesis by (simp add: lateFeeOf_def)
next
  case (Some due)
  show ?thesis
  proof (cases "due < today1")
    case True
    then have lt2: "due < today2" using t by simp
    have "(today1 - due) div 86400000 \<le> (today2 - due) div 86400000"
      using t by (intro zdiv_mono1) simp_all
    then have "(of_int ((today1 - due) div 86400000) :: rat) \<le> of_int ((today2 - due) div 86400000)"
      by simp
    then have "of_int ((today1 - due) div 86400000) * orZero (daily_late_fee_amount loan)
        \<le> of_int ((today2 - due) div 86400000) * orZero (daily_late_fee_amount loan)"
      using fee by (intro mult_right_mono) (simp_all add: orZero_def)
    then show ?thesis using Some True lt2 by (simp add: lateFeeOf_def)
  next
    case False
    then have "lateFeeOf z today1 loan s = 0" using Some by (simp add: lateFeeOf_def)
    then show ?thesis using lateFeeOf_nonneg [OF fee, of z today2 s] by simp
  qed
qed

lemma installments_total_mono:
  assumes t: "today1 \<le> today2" and fee: "0 \<le> daily_late_fee_amount loan"
  shows "acc1 \<le> acc2 \<Longrightarrow>
     foldl (\<lambda>total installment.
              if inst_status installment = inst_paid then total
              else total + amount installment + lateFeeOf z today1 loan (inst_due_date installment))
           acc1 details
     \<le> foldl (\<lambda>total installment.
              if inst_status installment = inst_paid then total
              else total + amount installment + lateFeeOf z today2 loan (inst_due_date installment))
           acc2 details"
proof (induction details arbitrary: acc1 acc2)
  case Nil
  then show ?case by simp
next
  case (Cons i details)
  show ?case
  proof (cases "inst_status i = inst_paid")
    case True
    then show ?thesis using Cons.IH [OF Cons.prems] by simp
  next
    case False
    have "acc1 + amount i + lateFeeOf z today1 loan (inst_due_date i)
        \<le> acc2 + amount i + lateFeeOf z today2 loan (inst_due_date i)"
      using Cons.prems lateFeeOf_mono [OF t fee, of z "inst_due_date i"] by simp
    then show ?thesis using False Cons.IH by simp
  qed
qed


text \<open>
  Claim C7. For a fixed loan with \<open>daily_late_fee_amount \<ge> 0\<close>, the outstanding balance
  is monotonically non-decreasing in the reference date: a later reference date never
  gives a smaller balance. (It holds of every such loan; for a paid or archived one both
  balances are 0.)
\<close>

theorem outstanding_balance_monotone:
  assumes "today1 \<le> today2" and "0 \<le> daily_late_fee_amount loan"
  shows "calculateCurrentOutstandingBalance z today1 loan
           \<le> calculateCurrentOutstandingBalance z today2 loan"
proof (cases "status loan = paid \<or> is_archived loan = Some True")
  case True
  then show ?thesis by (simp add: calculateCurrentOutstandingBalance_def)
next
  case False
  show ?thesis
  proof (cases "if modality loan = Parcelado then installments_details loan else None")
    case None
    then show ?thesis
      using False lateFeeOf_mono [OF assms, of z "due_date loan"]
      by (simp add: calculateCurrentOutstandingBalance_def Let_def)
  next
    case (Some details)
    then show ?thesis
      using False installments_total_mono [OF assms, of 0 0 z details]
      by (simp add: calculateCurrentOutstandingBalance_def)
  qed
qed

theorem outstanding_balance_monotone_witness:
  "feb05 \<le> feb15 \<and> (0::rat) \<le> daily_late_fee_amount exampleLoan
   \<and> calculateCurrentOutstandingBalance saoPaulo feb05 exampleLoan = 1725
   \<and> calculateCurrentOutstandingBalance saoPaulo feb15 exampleLoan = 1875
   \<and> calculateCurrentOutstandingBalance saoPaulo feb05 exampleLoan
        \<le> calculateCurrentOutstandingBalance saoPaulo feb15 exampleLoan"
proof -
  have a: "feb05 \<le> feb15" by (simp add: feb05_def feb15_def)
  have b: "0 \<le> daily_late_fee_amount exampleLoan" by (simp add: exampleLoan_def)
  have c: "calculateCurrentOutstandingBalance saoPaulo feb05 exampleLoan = 1725" by code_simp
  have d: "calculateCurrentOutstandingBalance saoPaulo feb15 exampleLoan = 1875" by code_simp
  show ?thesis using a b c d outstanding_balance_monotone [OF a b] by simp
qed


section \<open>The effective status\<close>











section \<open>Promises and the loan form\<close>

text \<open>
  Claim C8. For every loan of the page, \<open>handleAddPromise\<close> appends exactly one entry
  \<open>{date: now, note, promised_due_date}\<close> to its \<open>promise_history\<close> (a loan without a
  history gets the history of that one entry, a loan with a history keeps every entry
  of it, in order, before the new one) and overwrites its \<open>due_date\<close> with the promised
  date; it appends nothing to \<open>due_date_history\<close>, leaves every other field of the loan,
  every other loan and the transactions as they were.
\<close>

theorem add_promise_effect:
  assumes "i < length (loans st)"
  shows "let st' = handleAddPromise nowISO st loan promiseDate promiseNote;
             l = loans st ! i;
             l' = loans st' ! i;
             entry = \<lparr>promise_date = nowISO, promise_note = promiseNote,
                      promised_due_date = Some promiseDate\<rparr>
         in length (loans st') = length (loans st)
            \<and> transactions st' = transactions st
            \<and> editingLoan st' = editingLoan st
            \<and> (if loan_id l = loan_id loan
                then promise_history l' =
                       (case promise_history l of
                          None \<Rightarrow> Some [entry]
                        | Some history \<Rightarrow> Some (history @ [entry]))
                     \<and> due_date l' = promiseDate
                     \<and> due_date_history l' = due_date_history l
                     \<and> l'\<lparr>promise_history := promise_history l, due_date := due_date l\<rparr> = l
                else l' = l)"
  using assms by (simp add: handleAddPromise_def Let_def orEmpty_def split: option.splits)

theorem add_promise_effect_witness:
  "(1::nat) < length (loans promisedState)
   \<and> promise_history (loans promisedState ! 1) =
         Some [\<lparr>promise_date = ''2025-01-20T12:00:00.000Z'', promise_note = ''paga dia 25'',
                promised_due_date = Some ''2025-01-25''\<rparr>]
   \<and> (let st' = handleAddPromise ''2025-02-05T12:00:00.000Z'' promisedState
                  promisedInstallmentLoan ''2025-02-20'' ''paga dia 20''
      in promise_history (loans st' ! 1) =
           Some [\<lparr>promise_date = ''2025-01-20T12:00:00.000Z'', promise_note = ''paga dia 25'',
                  promised_due_date = Some ''2025-01-25''\<rparr>,
                 \<lparr>promise_date = ''2025-02-05T12:00:00.000Z'', promise_note = ''paga dia 20'',
                  promised_due_date = Some ''2025-02-20''\<rparr>]
         \<and> due_date (loans st' ! 1) = ''2025-02-20''
         \<and> due_date_history (loans st' ! 1) = None
         \<and> loans st' ! 0 = exampleLoan
         \<and> transactions st' = [])"
proof -
  have a0: "(0::nat) < length (loans promisedState)" and a1: "(1::nat) < length (loans promisedState)"
    by (simp_all add: promisedState_def)
  have b1: "loan_id (loans promisedState ! Suc 0) = loan_id promisedInstallmentLoan"
    and b0: "loan_id exampleLoan \<noteq> loan_id promisedInstallmentLoan"
    and h: "promise_history (loans promisedState ! Suc 0) =
              Some [\<lparr>promise_date = ''2025-01-20T12:00:00.000Z'', promise_note = ''paga dia 25'',
                     promised_due_date = Some ''2025-01-25''\<rparr>]"
      "due_date_history (loans promisedState ! Suc 0) = None"
      "transactions promisedState = []"
      "loans promisedState ! 0 = exampleLoan"
    by (simp_all add: promisedState_def promisedInstallmentLoan_def exampleLoan_def
        exampleInstallmentLoan_def)
  show ?thesis
    using a1 h(1)
      add_promise_effect [OF a0, of "''2025-02-05T12:00:00.000Z''" promisedInstallmentLoan
        "''2025-02-20''" "''paga dia 20''"]
      add_promise_effect [OF a1, of "''2025-02-05T12:00:00.000Z''" promisedInstallmentLoan
        "''2025-02-20''" "''paga dia 20''"]
    by (simp add: Let_def b0 b1 h)
qed



text \<open>
  Claim C9 says that creating a loan fails when a positive \<open>amount_borrowed\<close> is missing.
  \<open>handleSubmit\<close> tests \<open>!formData.amount_borrowed\<close>, which a negative amount passes: the
  loan is added and a debit transaction of the negative amount is emitted.
\<close>

theorem negative_amount_accepted:
  "f_amount_borrowed (exampleForm\<lparr>f_amount_borrowed := Some (- 5)\<rparr>) = Some (- 5)
   \<and> (case submitLoan ''2025-02-05T12:00:00.000Z'' 1738767600000 [] emptyState
              (exampleForm\<lparr>f_amount_borrowed := Some (- 5)\<rparr>) of
        Saved s \<Rightarrow>
          map amount_borrowed (loans s) = [- 5]
          \<and> map txn_amount (transactions s) = [- 5]
          \<and> map txn_type (transactions s) = [debit]
      | _ \<Rightarrow> False)"
  by (simp add: submitLoan_def handleSubmit_def asLoan_def handleSaveLoan_def exampleForm_def
      emptyState_def falsyString_def falsyNumber_def Let_def)


text \<open>
  Claim C9, amended. Creating a loan fails with the required-fields alert when \<open>clientId\<close>,
  \<open>due_date\<close> or \<open>account_id\<close> is absent or empty or \<open>amount_borrowed\<close> is absent or zero;
  otherwise an installment-modality loan fails with the installments alert when it has
  no schedule or an empty one; on both failures the state is as it was (no loan added,
  no transaction emitted). In every other case, a negative \<open>amount_borrowed\<close> among them,
  no alert is shown.
\<close>

theorem submit_validation:
  "let missing = (f_clientId f = None \<or> f_clientId f = Some []
                  \<or> f_amount_borrowed f = None \<or> f_amount_borrowed f = Some 0
                  \<or> f_due_date f = None \<or> f_due_date f = Some []
                  \<or> f_account_id f = None \<or> f_account_id f = Some []);
       noSchedule = (f_modality f = Some Parcelado
                     \<and> (f_installments_details f = None \<or> f_installments_details f = Some []));
       result = submitLoan nowISO now clients st f
   in (missing \<longrightarrow> result = Alert RequiredFields st)
      \<and> (\<not> missing \<and> noSchedule \<longrightarrow> result = Alert NoInstallments st)
      \<and> (\<not> missing \<and> \<not> noSchedule \<longrightarrow> (\<forall>a s. result \<noteq> Alert a s))"
  by (auto simp add: submitLoan_def handleSubmit_def falsyString_def falsyNumber_def Let_def
      split: option.splits list.splits)

theorem submit_validation_witness:
  "submitLoan ''2025-02-05T12:00:00.000Z'' 1738767600000 [] exampleState
       (exampleForm\<lparr>f_amount_borrowed := Some 0\<rparr>) = Alert RequiredFields exampleState
   \<and> submitLoan ''2025-02-05T12:00:00.000Z'' 1738767600000 [] exampleState
       (exampleForm\<lparr>f_modality := Some Parcelado, f_installments_details := Some []\<rparr>)
       = Alert NoInstallments exampleState
   \<and> (\<forall>a s. submitLoan ''2025-02-05T12:00:00.000Z'' 1738767600000 [] exampleState exampleForm
              \<noteq> Alert a s)"
  using submit_validation [of "exampleForm\<lparr>f_amount_borrowed := Some 0\<rparr>"
      "''2025-02-05T12:00:00.000Z''" 1738767600000 "[]" exampleState]
    submit_validation [of "exampleForm\<lparr>f_modality := Some Parcelado, f_installments_details := Some []\<rparr>"
      "''2025-02-05T12:00:00.000Z''" 1738767600000 "[]" exampleState]
    submit_validation [of exampleForm "''2025-02-05T12:00:00.000Z''" 1738767600000 "[]" exampleState]
  by (simp add: Let_def exampleForm_def)




section \<open>Days overdue\<close>

text \<open>
  Claim C6. For every stored ISO due date (\<open>YYYY-MM-DD\<close>, alone or followed by \<open>T\<close> and a
  time of day) and every reference date, \<open>calculateDaysOverdue\<close> returns
  \<open>max(0, floor((referenceDate - dueDateAtMidnight) / 1 day))\<close>, where the due date is
  the local midnight of the date part, whatever follows the \<open>T\<close>; in particular the
  result is 0 when the due date is on or after the reference date. (On every host whose
  offset \<open>z\<close> from UTC is less than a day.)
\<close>

theorem days_overdue_formula:
  assumes "validYMD y m d" and "0 \<le> y" and "y \<le> 9999"
    and "rest = [] \<or> hd rest = CHR ''T''"
    and "- 86400000 < z" and "z < 86400000"
  shows "calculateDaysOverdue z today (isoDate y m d @ rest)
           = Number (max 0 ((today - localMidnight z y m d) div msPerDay))
         \<and> (today \<le> localMidnight z y m d \<longrightarrow>
               calculateDaysOverdue z today (isoDate y m d @ rest) = Number 0)"
proof -
  have ne: "isoDate y m d @ rest \<noteq> []" by (simp add: isoDate_def pad4_def)
  have p: "newDateMidnight z (splitT0 (isoDate y m d @ rest)) = Some (localMidnight z y m d)"
    by (simp add: splitT0_isoDate [OF assms(4)] newDateMidnight_isoDate [OF assms(1-3) assms(5-6)])
  have "today \<le> localMidnight z y m d \<Longrightarrow> (today - localMidnight z y m d) div 86400000 \<le> 0"
    by (simp add: div_nonpos_pos_le0)
  then show ?thesis
    using ne by (auto simp add: calculateDaysOverdue_def p Let_def msPerDay_def)
qed

theorem days_overdue_formula_witness:
  "validYMD 2025 0 31 \<and> (0::int) \<le> 2025 \<and> (2025::int) \<le> 9999
   \<and> isoDate 2025 0 31 @ ''T23:59:59.000Z'' = ''2025-01-31T23:59:59.000Z''
   \<and> hd ''T23:59:59.000Z'' = CHR ''T''
   \<and> - 86400000 < saoPaulo \<and> saoPaulo < 86400000
   \<and> calculateDaysOverdue saoPaulo feb05 ''2025-01-31T23:59:59.000Z'' = Number 5
   \<and> (feb05 - localMidnight saoPaulo 2025 0 31) div msPerDay = 5"
proof -
  have v: "validYMD 2025 0 31" by code_simp
  have r: "''T23:59:59.000Z'' = [] \<or> hd ''T23:59:59.000Z'' = CHR ''T''" by simp
  have s: "isoDate 2025 0 31 @ ''T23:59:59.000Z'' = ''2025-01-31T23:59:59.000Z''" by code_simp
  have n: "(feb05 - localMidnight saoPaulo 2025 0 31) div msPerDay = 5" by code_simp
  have z: "- 86400000 < saoPaulo" "saoPaulo < 86400000" by (simp_all add: saoPaulo_def)
  show ?thesis
    using v s n z days_overdue_formula [OF v _ _ r z, of feb05] by simp
qed



text \<open>
  Local midnights follow the order of the civil dates, and \<open>getTodayInBrasilia\<close> returns
  the local midnight of the civil date it is given (a year from 0 to 99 apart, which
  \<open>new Date(year, month, day)\<close> reads as 1900 + year).
\<close>

lemma firstDayOfMonth_mono_step:
  "0 \<le> m \<Longrightarrow> m + int k \<le> 11 \<Longrightarrow> firstDayOfMonth y m \<le> firstDayOfMonth y (m + int k)"
proof (induction k)
  case 0
  then show ?case by simp
next
  case (Suc k)
  have "firstDayOfMonth y (m + int k + 1) = firstDayOfMonth y (m + int k) + DaysInMonth y (m + int k)"
    using Suc.prems by (intro firstDayOfMonth_next) simp_all
  moreover have "m + int (Suc k) = m + int k + 1" by simp
  moreover have "firstDayOfMonth y m \<le> firstDayOfMonth y (m + int k)"
    using Suc.prems by (intro Suc.IH) simp_all
  ultimately show ?case
    using DaysInMonth_bounds(1) [of y "m + int k"] by (simp only:)
qed

lemma firstDayOfMonth_mono:
  assumes "0 \<le> m" "m \<le> M" "M \<le> 11"
  shows "firstDayOfMonth y m \<le> firstDayOfMonth y M"
proof -
  obtain k where "M = m + int k" using assms(2) by (metis zle_iff_zadd)
  then show ?thesis using firstDayOfMonth_mono_step [of m k y] assms by simp
qed

lemma localMidnight_mono:
  assumes v: "validYMD y m d" and V: "validYMD Y M D" and le: "notAfter (y, m, d) (Y, M, D)"
  shows "localMidnight z y m d \<le> localMidnight z Y M D"
proof -
  have m: "0 \<le> m" "m \<le> 11" and d: "1 \<le> d" "d \<le> DaysInMonth y m"
    using v by (simp_all add: validYMD_def)
  have M: "0 \<le> M" "M \<le> 11" and D: "1 \<le> D" "D \<le> DaysInMonth Y M"
    using V by (simp_all add: validYMD_def)
  have "MakeDay y m d \<le> MakeDay Y M D"
  proof (cases "y < Y")
    case True
    then have "DayFromYear (y + 1) \<le> DayFromYear Y" by (intro DayFromYear_mono) simp
    then show ?thesis using MakeDay_bounds [OF v] MakeDay_bounds [OF V] by linarith
  next
    case False
    then have yY: "y = Y" and md: "m < M \<or> (m = M \<and> d \<le> D)"
      using le by (auto simp add: notAfter_def)
    show ?thesis
    proof (cases "m < M")
      case True
      then have m10: "m \<le> 10" using M by linarith
      have "firstDayOfMonth y (m + 1) \<le> firstDayOfMonth y M"
        using True m M by (intro firstDayOfMonth_mono) simp_all
      then show ?thesis
        using firstDayOfMonth_next [OF m(1) m10, of y] d D
        by (simp add: MakeDay_valid m M yY)
    next
      case False
      then show ?thesis using md by (simp add: MakeDay_valid m M yY)
    qed
  qed
  then show ?thesis by (simp add: localMidnight_value)
qed

lemma getTodayInBrasilia_civil:
  assumes v: "validYMD y m d" and y: "100 \<le> y" "y \<le> 275759"
    and z: "- 86400000 < z" "z < 86400000"
  shows "getTodayInBrasilia z (d, m + 1, y) = Some (localMidnight z y m d)"
proof -
  have c: "TimeClip (localMidnight z y m d) = Some (localMidnight z y m d)"
    using y by (intro TimeClip_localMidnight [OF v _ _ z]) simp_all
  have m: "0 \<le> m" "m \<le> 11" using v by (simp_all add: validYMD_def)
  have n: "newDateYMD z y m d = Some (localMidnight z y m d)"
    using y c by (simp add: newDateYMD_def localMidnight_def)
  have "Day (LocalTime z (localMidnight z y m d)) = MakeDay y m d"
    by (simp add: localMidnight_def LocalTime_UTC Day_MakeDate0)
  then have "setHours0 z (Some (localMidnight z y m d)) = Some (localMidnight z y m d)"
    using c by (simp add: setHours0_def localMidnight_def [symmetric])
  then show ?thesis by (simp add: getTodayInBrasilia_def n)
qed


text \<open>
  Claim C10. \<open>calculateDaysOverdue\<close> is a total function of any string and never returns
  a negative number (for a text that is no date it returns \<open>NaN\<close>); the empty string
  yields 0; and a well-formed due date on or after today's civil date in Brasilia
  yields 0. (On every host whose offset \<open>z\<close> from UTC is less than a day.)
\<close>

theorem days_overdue_never_negative:
  "(case calculateDaysOverdue z today s of Number n \<Rightarrow> 0 \<le> n | NaN \<Rightarrow> True)
   \<and> calculateDaysOverdue z today [] = Number 0
   \<and> (validYMD y m d \<and> 100 \<le> y \<and> y \<le> 9999
       \<and> validYMD Y M D \<and> 0 \<le> Y \<and> Y \<le> 9999
       \<and> notAfter (y, m, d) (Y, M, D)
       \<and> (rest = [] \<or> hd rest = CHR ''T'')
       \<and> - 86400000 < z \<and> z < 86400000
      \<longrightarrow> (\<exists>t. getTodayInBrasilia z (d, m + 1, y) = Some t
               \<and> calculateDaysOverdue z t (isoDate Y M D @ rest) = Number 0))"
proof (intro conjI impI)
  show "case calculateDaysOverdue z today s of Number n \<Rightarrow> 0 \<le> n | NaN \<Rightarrow> True"
  proof (cases "newDateMidnight z (splitT0 s)")
    case None
    then show ?thesis by (simp add: calculateDaysOverdue_def)
  next
    case (Some dueDate)
    have "\<not> today \<le> dueDate \<Longrightarrow> 0 \<le> (today - dueDate) div 86400000"
      by (simp add: pos_imp_zdiv_nonneg_iff)
    then show ?thesis by (simp add: calculateDaysOverdue_def Some Let_def)
  qed
  show "calculateDaysOverdue z today [] = Number 0"
    by (simp add: calculateDaysOverdue_def)
next
  assume a: "validYMD y m d \<and> 100 \<le> y \<and> y \<le> 9999
       \<and> validYMD Y M D \<and> 0 \<le> Y \<and> Y \<le> 9999
       \<and> notAfter (y, m, d) (Y, M, D)
       \<and> (rest = [] \<or> hd rest = CHR ''T'')
       \<and> - 86400000 < z \<and> z < 86400000"
  then have v: "validYMD y m d" and V: "validYMD Y M D"
    and z: "- 86400000 < z" "z < 86400000" by simp_all
  have t: "getTodayInBrasilia z (d, m + 1, y) = Some (localMidnight z y m d)"
    using a by (intro getTodayInBrasilia_civil [OF v _ _ z]) simp_all
  have le: "localMidnight z y m d \<le> localMidnight z Y M D"
    using a by (intro localMidnight_mono [OF v V]) simp
  have ne: "isoDate Y M D @ rest \<noteq> []" by (simp add: isoDate_def pad4_def)
  have p: "newDateMidnight z (splitT0 (isoDate Y M D @ rest)) = Some (localMidnight z Y M D)"
    using a by (simp add: splitT0_isoDate newDateMidnight_isoDate [OF V _ _ z])
  have "calculateDaysOverdue z (localMidnight z y m d) (isoDate Y M D @ rest) = Number 0"
    using ne le by (simp add: calculateDaysOverdue_def p)
  with t show "\<exists>t. getTodayInBrasilia z (d, m + 1, y) = Some t
               \<and> calculateDaysOverdue z t (isoDate Y M D @ rest) = Number 0"
    by blast
qed

theorem days_overdue_never_negative_witness:
  "validYMD 2025 1 5 \<and> validYMD 2025 1 5 \<and> validYMD 2025 2 10
   \<and> notAfter (2025, 1, 5) (2025, 1, 5) \<and> notAfter (2025, 1, 5) (2025, 2, 10)
   \<and> getTodayInBrasilia saoPaulo (5, 2, 2025) = Some feb05
   \<and> calculateDaysOverdue saoPaulo feb05 ''2025-02-05'' = Number 0
   \<and> calculateDaysOverdue saoPaulo feb05 ''2025-03-10T03:00:00.000Z'' = Number 0
   \<and> calculateDaysOverdue saoPaulo feb05 ''2025-02-04'' = Number 1
   \<and> calculateDaysOverdue saoPaulo feb05 ''no date'' = NaN"
proof -
  have v1: "validYMD 2025 1 5" and v2: "validYMD 2025 2 10" by code_simp+
  have n1: "notAfter (2025, 1, 5) (2025, 1, 5)" and n2: "notAfter (2025, 1, 5) (2025, 2, 10)"
    by (simp_all add: notAfter_def)
  have s1: "isoDate 2025 1 5 @ [] = ''2025-02-05''"
    and s2: "isoDate 2025 2 10 @ ''T03:00:00.000Z'' = ''2025-03-10T03:00:00.000Z''"
    by code_simp+
  have e: "calculateDaysOverdue saoPaulo feb05 ''2025-02-04'' = Number 1"
    "calculateDaysOverdue saoPaulo feb05 ''no date'' = NaN"
    by code_simp+
  note g = getTodayInBrasilia_feb05
  have z: "- 86400000 < saoPaulo" "saoPaulo < 86400000" by (simp_all add: saoPaulo_def)
  have "calculateDaysOverdue saoPaulo feb05 ''2025-02-05'' = Number 0"
    using days_overdue_never_negative [of saoPaulo feb05 "[]" 2025 1 5 2025 1 5 "[]"] v1 n1 s1 g z
    by simp
  moreover have "calculateDaysOverdue saoPaulo feb05 ''2025-03-10T03:00:00.000Z'' = Number 0"
    using days_overdue_never_negative [of saoPaulo feb05 "[]" 2025 1 5 2025 2 10 "''T03:00:00.000Z''"]
      v1 v2 n2 s2 g z
    by simp
  ultimately show ?thesis using v1 v2 n1 n2 g e by simp
qed


section \<open>Due dates: the schedule and the interest-only payment\<close>

lemma installmentsLoop_dates:
  assumes "\<And>i. i \<in> set indices \<Longrightarrow>
             \<exists>s. toISOString (installmentDueDate z firstDueDate (int i)) = Inr s \<and> splitT0 s = g i"
  shows "\<exists>pushed. installmentsLoop z firstDueDate a n standardInstallment allocated indices = Inr pushed
            \<and> map (\<lambda>x. splitT0 (inst_due_date x)) pushed = map g indices"
  using assms
proof (induction indices arbitrary: allocated)
  case Nil
  then show ?case by simp
next
  case (Cons i rest)
  obtain s where s: "toISOString (installmentDueDate z firstDueDate (int i)) = Inr s" "splitT0 s = g i"
    using Cons.prems [of i] by auto
  define allocated' where
    "allocated' = (if int i = n - 1 then allocated
               else dadd allocated (if int i = n - 1 then dsub a allocated else standardInstallment))"
  obtain pushed where p: "installmentsLoop z firstDueDate a n standardInstallment allocated' rest = Inr pushed"
      "map (\<lambda>x. splitT0 (inst_due_date x)) pushed = map g rest"
    using Cons.IH [of allocated'] Cons.prems by auto
  show ?case
    using s p by (simp add: Let_def allocated'_def [symmetric])
qed

text \<open>
  Claim C5 says that the due dates of a generated schedule are the first due date moved
  on by whole calendar months, clamped to the last day of a shorter month: 31 January,
  28 February, 31 March, 30 April. The handler stores each due date as \<open>toISOString\<close>
  prints the local midnight of that day, in UTC, and the page reads the part before the
  \<open>T\<close> back as the date. On a host ahead of UTC the local midnight falls on the day
  before in UTC: one hour ahead, the schedule from 31 January 2025 is stored as 30
  January, 27 February, 30 March and 29 April.
\<close>

theorem schedule_a_day_early_ahead_of_utc:
  "f_due_date (exampleInstallmentForm 4) = Some ''2025-01-31''
   \<and> scheduleDueDates (handleGenerateInstallments utcPlusOne True (exampleInstallmentForm 4))
       = Some [''2025-01-30T23:00:00.000Z'', ''2025-02-27T23:00:00.000Z'',
               ''2025-03-30T23:00:00.000Z'', ''2025-04-29T23:00:00.000Z'']
   \<and> map_option (map splitT0)
         (scheduleDueDates (handleGenerateInstallments utcPlusOne True (exampleInstallmentForm 4)))
       = Some [''2025-01-30'', ''2025-02-27'', ''2025-03-30'', ''2025-04-29'']"
  by code_simp

text \<open>
  Claim C5, amended. On a host whose local time is UTC or behind it by less than a day
  (as in Brazil), when an installment schedule is generated, the date part of the due
  date stored for installment \<open>i + 1\<close> is \<open>i\<close> calendar months after the first due date:
  from 31 January they are 31 January, 28 February (29 in a leap year), 31 March, 30
  April and so on. Whenever the day of the first due date does not exist in the target
  month, it is the last day of that month and never a day of the following month.
  (Proved for every first due date \<open>YYYY-MM-DD\<close>, alone or followed by \<open>T\<close> and a time,
  and every number of installments that keeps the years within four digits.)
\<close>

theorem month_end_clamp:
  assumes form: "f_modality f = Some Parcelado" "f_installments f = Some n" "0 < n"
      "f_amount_to_receive f = Some a" "a \<noteq> 0"
      "f_due_date f = Some (isoDate y m d @ rest)" "rest = [] \<or> hd rest = CHR ''T''"
    and v: "validYMD y m d" and y: "0 \<le> y" "y + (m + n) div 12 \<le> 9999"
    and z: "- 86400000 < z" "z \<le> 0"
  shows "map_option (map splitT0) (scheduleDueDates (handleGenerateInstallments z True f))
           = Some (map (\<lambda>i. clampedDueDate y m d (int i)) [0 ..< nat n])"
proof -
  have m: "0 \<le> m" "m \<le> 11" and d: "1 \<le> d" "d \<le> DaysInMonth y m"
    using v by (simp_all add: validYMD_def)
  have z': "z < 86400000" using z by simp
  have y9: "y \<le> 9999"
  proof -
    have "0 \<le> (m + n) div 12" using m form(3) by (simp add: pos_imp_zdiv_nonneg_iff)
    then show ?thesis using y by linarith
  qed
  have first: "newDateMidnight z (splitT0 (isoDate y m d @ rest)) = Some (localMidnight z y m d)"
    by (simp add: splitT0_isoDate [OF form(7)] newDateMidnight_isoDate [OF v y(1) y9 z(1) z'])
  have each: "\<exists>s. toISOString (installmentDueDate z (Some (localMidnight z y m d)) (int i)) = Inr s
                  \<and> splitT0 s = clampedDueDate y m d (int i)"
    if "i \<in> set [0 ..< nat n]" for i
  proof -
    define y' m' where "y' = y + (m + int i) div 12" and "m' = (m + int i) mod 12"
    have i: "0 \<le> int i" "int i < n" using that by simp_all
    have "(m + int i) div 12 \<le> (m + n) div 12" using i by (intro zdiv_mono1) simp_all
    then have hi: "y' \<le> 9999" using y by (simp add: y'_def)
    have "0 \<le> (m + int i) div 12" using m by (simp add: pos_imp_zdiv_nonneg_iff)
    then have lo: "0 \<le> y'" using y by (simp add: y'_def)
    have m': "0 \<le> m'" "m' \<le> 11" by (simp_all add: m'_def)
    have v': "validYMD y' m' (min d (DaysInMonth y' m'))"
      using m' d DaysInMonth_bounds [of y' m'] by (simp add: validYMD_def)
    have due: "installmentDueDate z (Some (localMidnight z y m d)) (int i)
            = Some (localMidnight z y' m' (min d (DaysInMonth y' m')))"
      unfolding y'_def m'_def
      using y(1) hi z(1) z' by (intro installmentDueDate_clamp [OF v]) (simp_all add: y'_def)
    obtain clock where
      "toISOString (Some (localMidnight z y' m' (min d (DaysInMonth y' m'))))
         = Inr (isoDate y' m' (min d (DaysInMonth y' m')) @ CHR ''T'' # clock)"
      using toISOString_localMidnight [OF v' lo hi z] by blast
    then show ?thesis
      using splitT0_toISOString_localMidnight [OF v' lo hi z]
      by (simp add: due clampedDueDate_def Let_def y'_def m'_def)
  qed
  obtain pushed where p:
      "installmentsLoop z (Some (localMidnight z y m d)) a n
         (ddiv (Math_floor (dmul (ddiv a (of_int n)) 100)) 100) 0 [0 ..< nat n] = Inr pushed"
      "map (\<lambda>x. splitT0 (inst_due_date x)) pushed
         = map (\<lambda>i. clampedDueDate y m d (int i)) [0 ..< nat n]"
    using installmentsLoop_dates [of "[0 ..< nat n]" z "Some (localMidnight z y m d)"
        "\<lambda>i. clampedDueDate y m d (int i)" a n
        "ddiv (Math_floor (dmul (ddiv a (of_int n)) 100)) 100" 0] each
    by blast
  have "length pushed = length [0 ..< nat n]"
    using arg_cong [OF p(2), of length] by (simp only: length_map)
  then have "pushed \<noteq> []" using form(3) by auto
  then obtain l ls where r: "rev pushed = l # ls" by (cases "rev pushed") simp_all
  have "isoDate y m d \<noteq> []" by (simp add: isoDate_def pad4_def)
  then have "handleGenerateInstallments z True f =
               Inr (f\<lparr>f_installments_details := Some pushed,
                      f_due_date := Some (inst_due_date l),
                      f_status := Some pending\<rparr>)"
    using form(1-6)
    by (simp add: handleGenerateInstallments_def first Let_def p(1) r)
  then show ?thesis
    by (simp add: scheduleDueDates_def p(2) [symmetric] comp_def)
qed

theorem month_end_clamp_witness:
  "- 86400000 < saoPaulo \<and> saoPaulo \<le> 0
   \<and> f_due_date (exampleInstallmentForm 4) = Some ''2025-01-31''
   \<and> map_option (map splitT0)
         (scheduleDueDates (handleGenerateInstallments saoPaulo True (exampleInstallmentForm 4)))
       = Some [''2025-01-31'', ''2025-02-28'', ''2025-03-31'', ''2025-04-30'']
   \<and> map_option (map splitT0)
         (scheduleDueDates (handleGenerateInstallments saoPaulo True
            ((exampleInstallmentForm 14)\<lparr>f_due_date := Some ''2023-12-31T03:00:00.000Z''\<rparr>)))
       = Some [''2023-12-31'', ''2024-01-31'', ''2024-02-29'', ''2024-03-31'', ''2024-04-30'',
               ''2024-05-31'', ''2024-06-30'', ''2024-07-31'', ''2024-08-31'', ''2024-09-30'',
               ''2024-10-31'', ''2024-11-30'', ''2024-12-31'', ''2025-01-31'']"
proof -
  let ?f = "exampleInstallmentForm 4"
  let ?g = "(exampleInstallmentForm 14)\<lparr>f_due_date := Some ''2023-12-31T03:00:00.000Z''\<rparr>"
  have z: "- 86400000 < saoPaulo" "saoPaulo \<le> 0" by (simp_all add: saoPaulo_def)
  have f: "f_modality ?f = Some Parcelado" "f_installments ?f = Some 4" "(0::int) < 4"
    "f_amount_to_receive ?f = Some 1100" "(1100::rat) \<noteq> 0"
    by (simp_all add: exampleInstallmentForm_def exampleForm_def)
  have fd: "f_due_date ?f = Some (isoDate 2025 0 31 @ [])" by code_simp
  have fd': "f_due_date ?f = Some ''2025-01-31''" by code_simp
  have g: "f_modality ?g = Some Parcelado" "f_installments ?g = Some 14" "(0::int) < 14"
    "f_amount_to_receive ?g = Some 1100"
    by (simp_all add: exampleInstallmentForm_def exampleForm_def)
  have gd: "f_due_date ?g = Some (isoDate 2023 11 31 @ ''T03:00:00.000Z'')" by code_simp
  have v: "validYMD 2025 0 31" "validYMD 2023 11 31" by code_simp+
  have r: "[] = [] \<or> hd [] = CHR ''T''"
    "''T03:00:00.000Z'' = [] \<or> hd ''T03:00:00.000Z'' = CHR ''T''"
    by simp_all
  have e1: "map (\<lambda>i. clampedDueDate 2025 0 31 (int i)) [0 ..< nat 4]
      = [''2025-01-31'', ''2025-02-28'', ''2025-03-31'', ''2025-04-30'']"
    by code_simp
  have e2: "map (\<lambda>i. clampedDueDate 2023 11 31 (int i)) [0 ..< nat 14]
      = [''2023-12-31'', ''2024-01-31'', ''2024-02-29'', ''2024-03-31'', ''2024-04-30'',
         ''2024-05-31'', ''2024-06-30'', ''2024-07-31'', ''2024-08-31'', ''2024-09-30'',
         ''2024-10-31'', ''2024-11-30'', ''2024-12-31'', ''2025-01-31'']"
    by code_simp
  have "map_option (map splitT0) (scheduleDueDates (handleGenerateInstallments saoPaulo True ?f))
          = Some (map (\<lambda>i. clampedDueDate 2025 0 31 (int i)) [0 ..< nat 4])"
    by (rule month_end_clamp [OF f fd r(1) v(1) _ _ z]) simp_all
  moreover have "map_option (map splitT0) (scheduleDueDates (handleGenerateInstallments saoPaulo True ?g))
          = Some (map (\<lambda>i. clampedDueDate 2023 11 31 (int i)) [0 ..< nat 14])"
    by (rule month_end_clamp [OF g _ gd r(2) v(2) _ _ z]) simp_all
  ultimately show ?thesis using z fd' by (simp only: e1 e2)
qed


text \<open>
  Claim C2 says that an interest-only payment on a monthly-interest loan advances the due
  date by one calendar month with the clamping of the schedule generator. The payment
  handler calls \<open>setMonth\<close> and stops there: a loan due on 31 January 2025 is then due on
  3 March 2025, while the generator gives 28 February for the same first date. The rest
  of the claim holds at this input: one entry is appended to \<open>interest_payments_history\<close>,
  the status is derived anew (\<open>pending\<close>, not \<open>paid\<close>), \<open>payment_date\<close> stays unset.
\<close>

theorem interest_only_rolls_into_march:
  "modality exampleMonthlyLoan = JurosMensal
   \<and> due_date exampleMonthlyLoan = ''2025-01-31''
   \<and> receivePaymentOn saoPaulo feb05 exampleMonthlyLoan ''2025-02-05'' 100 None (Some interest_only)
       = Inr (exampleMonthlyLoan
                \<lparr>interest_payments_history :=
                   Some [\<lparr>ip_date = ''2025-02-05'', ip_amount_paid = 100\<rparr>],
                 due_date := ''2025-03-03T03:00:00.000Z'',
                 status := pending\<rparr>)
   \<and> scheduleDueDates (handleGenerateInstallments saoPaulo True (exampleInstallmentForm 2))
       = Some [''2025-01-31T03:00:00.000Z'', ''2025-02-28T03:00:00.000Z'']"
  by code_simp


section \<open>The amounts of a schedule\<close>

text \<open>
  The exponent that \<open>double\<close> takes is the binary exponent of its argument, and the
  integer it rounds to is a nearest one: \<open>double x\<close> is a multiple of the spacing of the
  doubles around \<open>x\<close> that is nearest to \<open>x\<close>.
\<close>

lemma roundHalfEven_nearest: "\<bar>of_int (roundHalfEven x) - x\<bar> \<le> 1 / 2"
proof -
  define n r where "n = \<lfloor>x\<rfloor>" and "r = x - of_int n"
  have r: "0 \<le> r" "r < 1" by (simp_all add: r_def n_def) linarith
  have x: "x = of_int n + r" by (simp add: r_def)
  have "roundHalfEven x =
          (if r < 1 / 2 then n else if 1 / 2 < r then n + 1 else if even n then n else n + 1)"
    by (simp add: roundHalfEven_def Let_def n_def r_def)
  then have "roundHalfEven x = n \<and> r \<le> 1 / 2 \<or> roundHalfEven x = n + 1 \<and> 1 / 2 \<le> r"
    by (cases "r < 1 / 2"; cases "1 / 2 < r") simp_all
  then show ?thesis using r by (auto simp add: x)
qed

lemma pos_exponent:
  fixes a :: rat
  assumes "1 \<le> a"
  shows "2 ^ nat (bitlen \<lfloor>a\<rfloor> - 1) \<le> a \<and> a < 2 ^ nat (bitlen \<lfloor>a\<rfloor>)"
proof -
  define n where "n = \<lfloor>a\<rfloor>"
  have n: "0 < n" using assms by (simp add: n_def)
  have b: "2 ^ nat (bitlen n - 1) \<le> n" "n < 2 ^ nat (bitlen n)"
    using bitlen_bounds [OF n] by simp_all
  have "(of_int (2 ^ nat (bitlen n - 1)) :: rat) \<le> of_int n" using b(1) by (simp only: of_int_le_iff)
  moreover have "of_int n \<le> a" by (simp add: n_def)
  ultimately have "(of_int (2 ^ nat (bitlen n - 1)) :: rat) \<le> a" by (rule order_trans)
  then have lo: "2 ^ nat (bitlen n - 1) \<le> a" by simp
  have "n + 1 \<le> 2 ^ nat (bitlen n)" using b(2) by simp
  then have "(of_int (n + 1) :: rat) \<le> of_int (2 ^ nat (bitlen n))" by (simp only: of_int_le_iff)
  moreover have "a < of_int (n + 1)" by (simp add: n_def) linarith
  ultimately have "a < of_int (2 ^ nat (bitlen n))" by (rule less_le_trans [rotated])
  then have "a < 2 ^ nat (bitlen n)" by simp
  with lo show ?thesis by (simp add: n_def)
qed

lemma binaryExponent_bounds:
  assumes "x \<noteq> 0"
  shows "2 powi binaryExponent x \<le> \<bar>x\<bar> \<and> \<bar>x\<bar> < 2 powi (binaryExponent x + 1)"
proof -
  define a where "a = \<bar>x\<bar>"
  have a: "0 < a" using assms by (simp add: a_def)
  show ?thesis
  proof (cases "1 \<le> a")
    case True
    define n where "n = \<lfloor>a\<rfloor>"
    have "0 < n" using True by (simp add: n_def)
    then have "1 \<le> bitlen n" by (simp add: bitlen_alt_def)
    then have e: "bitlen n - 1 = int (nat (bitlen n - 1))" "bitlen n - 1 + 1 = int (nat (bitlen n))"
      by simp_all
    have "binaryExponent x = bitlen n - 1"
      using True by (simp add: binaryExponent_def a_def [symmetric] n_def Let_def)
    then show ?thesis
      using pos_exponent [OF True]
      apply (simp only: a_def [symmetric] n_def [symmetric])
      apply (subst e(1), subst e(2))
      apply (simp only: power_int_of_nat)
      done
  next
    case False
    define b where "b = 1 / a"
    have b1: "1 \<le> b" using False a by (simp add: b_def)
    define k where "k = nat (bitlen \<lfloor>b\<rfloor> - 1)"
    have "0 < \<lfloor>b\<rfloor>" using b1 by simp
    then have "1 \<le> bitlen \<lfloor>b\<rfloor>" by (simp add: bitlen_alt_def)
    then have k: "bitlen \<lfloor>b\<rfloor> - 1 = int k" "nat (bitlen \<lfloor>b\<rfloor>) = Suc k"
      by (simp_all add: k_def)
    have pb: "2 ^ k \<le> b" "b < 2 ^ Suc k"
      using pos_exponent [OF b1] unfolding k_def [symmetric] k(2) by simp_all
    have lo: "a * 2 ^ k \<le> 1" using pb(1) a by (simp add: b_def field_simps)
    have hi: "1 < a * 2 ^ Suc k" using pb(2) a by (simp add: b_def field_simps)
    have p: "(2::rat) powi (- int k) = 1 / 2 ^ k" "(2::rat) powi (- int k - 1) = 1 / 2 ^ Suc k"
      "(2::rat) powi (- int k + 1) = 2 / 2 ^ k" "(2::rat) powi (- int k - 1 + 1) = 1 / 2 ^ k"
      "(2::rat) powi (1 - int k) = 2 / 2 ^ k"
      by (simp_all add: power_int_minus power_int_diff power_int_add field_simps)
    show ?thesis
    proof (cases "a * 2 ^ k = 1")
      case True
      then have "binaryExponent x = - int k"
        using False by (simp add: binaryExponent_def a_def [symmetric] b_def [symmetric] k Let_def)
      moreover have "a = 1 / 2 ^ k" using True by (simp add: field_simps)
      moreover have "(1::rat) / 2 ^ k < 2 / 2 ^ k" by (simp add: divide_strict_right_mono)
      ultimately show ?thesis by (simp add: a_def [symmetric] p)
    next
      case ne: False
      then have "binaryExponent x = - int k - 1"
        using False by (simp add: binaryExponent_def a_def [symmetric] b_def [symmetric] k Let_def)
      moreover have "a * 2 ^ k < 1" using lo ne by simp
      then have "a < 1 / 2 ^ k" by (simp add: field_simps)
      moreover have "1 / 2 ^ Suc k < a" using hi by (simp add: field_simps)
      ultimately show ?thesis by (simp only: a_def [symmetric] p) simp
    qed
  qed
qed

lemma double_nearest:
  assumes "x \<noteq> 0"
  shows "let ulp = 2 powi (max (binaryExponent x) (- 1022) - 52)
         in (\<exists>n. double x = of_int n * ulp) \<and> \<bar>double x - x\<bar> \<le> ulp / 2"
proof -
  define ulp :: rat where "ulp = 2 powi (max (binaryExponent x) (- 1022) - 52)"
  define n where "n = roundHalfEven (x / ulp)"
  have u: "0 < ulp" by (simp add: ulp_def)
  have d: "double x = of_int n * ulp"
    using assms by (simp add: double_def Let_def ulp_def n_def)
  have "\<bar>of_int n - x / ulp\<bar> \<le> 1 / 2" unfolding n_def by (rule roundHalfEven_nearest)
  then have "\<bar>of_int n - x / ulp\<bar> * ulp \<le> 1 / 2 * ulp"
    using u by (intro mult_right_mono) simp_all
  moreover have "\<bar>of_int n - x / ulp\<bar> * ulp = \<bar>of_int n * ulp - x\<bar>"
  proof -
    have "\<bar>of_int n - x / ulp\<bar> * ulp = \<bar>(of_int n - x / ulp) * ulp\<bar>"
      using u by (simp add: abs_mult)
    also have "(of_int n - x / ulp) * ulp = of_int n * ulp - x"
      using u by (simp add: field_simps)
    finally show ?thesis .
  qed
  ultimately have "\<bar>double x - x\<bar> \<le> ulp / 2" by (simp add: d)
  then show ?thesis using d by (auto simp add: Let_def ulp_def [symmetric])
qed

text \<open>
  Claim C1 says that every installment of a generated schedule but the last is
  \<open>floor(amount_to_receive / installments * 100) / 100\<close>, the last the remainder, and
  that the amounts sum to \<open>amount_to_receive\<close> to the cent. The handler computes the
  quotient and the product in doubles. For 82 in 5 installments the quotient is the
  double next below 16.4 and its product with 100 the double next below 1640, which
  \<open>Math.floor\<close> takes to 1639: the first four installments are stored as 16.39, one
  cent less than the 16.40 of the claim, and the last as 16.44. The sum is still 82.00.
  (For 1100 in 3 installments the amounts are those of the claim: 366.66, 366.66 and
  366.68.)
\<close>

theorem eighty_two_in_five_installments:
  "f_modality eightyTwoInFive = Some Parcelado
   \<and> f_installments eightyTwoInFive = Some 5
   \<and> f_amount_to_receive eightyTwoInFive = Some 82
   \<and> double 82 = 82 \<and> double 5 = 5 \<and> double 100 = 100
   \<and> ddiv 82 5 = 82 / 5 - 1 / (5 * 2 ^ 47)
   \<and> dmul (ddiv 82 5) 100 = 1640 - 1 / 2 ^ 42
   \<and> scheduleAmounts (handleGenerateInstallments saoPaulo True eightyTwoInFive)
       = Some [parseFloat (1639 / 100), parseFloat (1639 / 100), parseFloat (1639 / 100),
               parseFloat (1639 / 100), parseFloat (1644 / 100)]
   \<and> Math_floor (82 / 5 * 100) / 100 = 1640 / 100
   \<and> parseFloat (1639 / 100) < parseFloat (1640 / 100)
   \<and> toFixed2 (4 * parseFloat (1639 / 100) + parseFloat (1644 / 100)) = 82
   \<and> f_amount_to_receive (exampleInstallmentForm 3) = Some 1100
   \<and> scheduleAmounts (handleGenerateInstallments saoPaulo True (exampleInstallmentForm 3))
       = Some [parseFloat (36666 / 100), parseFloat (36666 / 100), parseFloat (36668 / 100)]
   \<and> Math_floor (1100 / 3 * 100) / 100 = 36666 / 100"
  by code_simp

end
